theory Spec2Isabelle
  imports Complex_Main "HOL-Library.Word" "HOL-Library.Sublist"
begin

section \<open>The walker spawner of \<^verbatim>\<open>Source/Carla/AI/WalkerSpawnerBase.cpp\<close>\<close>

text \<open>
  The spawner is one object (\<^verbatim>\<open>AWalkerSpawnerBase\<close>) whose methods mutate its fields and
  call into the engine. The embedding passes the object explicitly, as a record, and
  returns it updated. What the engine answers (the actor \<^verbatim>\<open>SpawnWalker\<close> yields, the
  controller an actor has at this moment, whether that controller is stuck, where an
  actor stands, the results of the engine's single-precision vector arithmetic, the
  values of the random stream) is an input of the function that asks.
  A failed \<^verbatim>\<open>check\<close> and an index outside a \<^verbatim>\<open>TArray\<close> stop the program; they are
  the error values of the embedding.
\<close>

subsection \<open>Engine data\<close>

text \<open>
  A \<^verbatim>\<open>float\<close> is a finite value, given by the real number it denotes, an infinity,
  or not a number. The comparison \<^verbatim>\<open>a >= b\<close> and \<^verbatim>\<open>FMath::Abs\<close> are exact
  operations; they are false, respectively not a number, on what is not a number. The
  rounded operations of the engine (the difference of two vectors, the size of a vector)
  are not defined here: they are answers of the engine, see \<open>env\<close> below.
\<close>

datatype float = Finite real | PlusInfinity | MinusInfinity | NaN

fun float_ge :: "float \<Rightarrow> float \<Rightarrow> bool" where
  "float_ge NaN b = False"
| "float_ge a NaN = False"
| "float_ge PlusInfinity b = True"
| "float_ge a MinusInfinity = True"
| "float_ge MinusInfinity b = False"
| "float_ge a PlusInfinity = False"
| "float_ge (Finite x) (Finite y) = (x \<ge> y)"

fun FMath_Abs :: "float \<Rightarrow> float" where
  "FMath_Abs (Finite x) = Finite \<bar>x\<bar>"
| "FMath_Abs PlusInfinity = PlusInfinity"
| "FMath_Abs MinusInfinity = PlusInfinity"
| "FMath_Abs NaN = NaN"

type_synonym FVector = "float \<times> float \<times> float"

text \<open>
  A spawn point of the level. \<^verbatim>\<open>Cast<AWalkerSpawnPoint>\<close> succeeds on the points of
  class \<^verbatim>\<open>AWalkerSpawnPoint\<close> and yields \<^verbatim>\<open>nullptr\<close> on the other
  \<^verbatim>\<open>AWalkerSpawnPointBase\<close> actors.
\<close>

record AWalkerSpawnPointBase =
  ActorLocation :: FVector
  IsWalkerSpawnPoint :: bool

text \<open>
  An \<^verbatim>\<open>ACharacter *\<close> is \<open>None\<close> for \<^verbatim>\<open>nullptr\<close> and \<open>Some a\<close> for the actor
  number \<open>a\<close>; actors are numbered in the order \<^verbatim>\<open>SpawnWalker\<close> creates them.
\<close>

type_synonym ACharacter_ptr = "nat option"

datatype AWalkerAIController = AWalkerAIController (WalkerIsStuck: bool)

text \<open>
  \<^verbatim>\<open>FRandomStream\<close> is the engine's seeded generator. A stream is the sequence of raw
  values its seed determines and the number of values already taken;
  \<^verbatim>\<open>RandRange(Min, Max)\<close> takes one value and reduces it into \<open>[Min, Max]\<close>, and
  takes none when the range is empty (the engine then returns \<open>Min\<close>).
\<close>

record FRandomStream =
  Draws :: "nat \<Rightarrow> nat"
  Consumed :: nat

definition RandRange :: "int \<Rightarrow> int \<Rightarrow> FRandomStream \<Rightarrow> int \<times> FRandomStream" where
  "RandRange MinV MaxV rs =
     (let Range = (MaxV - MinV) + 1 in
      if Range > 0
      then (MinV + int (Draws rs (Consumed rs) mod nat Range), rs\<lparr>Consumed := Suc (Consumed rs)\<rparr>)
      else (MinV, rs))"

subsection \<open>Errors and containers\<close>

datatype error = CheckFailed | RangeCheckFailed | DivisionByZero | NullDereference

text \<open>\<^verbatim>\<open>TArray::operator[]\<close> checks its index.\<close>

definition At :: "'a list \<Rightarrow> int \<Rightarrow> error + 'a" where
  "At xs Index = (if 0 \<le> Index \<and> Index < int (length xs) then Inr (xs ! nat Index)
                  else Inl RangeCheckFailed)"

text \<open>
  \<^verbatim>\<open>TArray::RemoveAtSwap(Index)\<close>: the last element takes the place of the removed one
  and the array shrinks by one.
\<close>

definition RemoveAtSwap :: "int \<Rightarrow> 'a list \<Rightarrow> error + 'a list" where
  "RemoveAtSwap Index xs =
     (if 0 \<le> Index \<and> Index < int (length xs) then Inr (butlast (xs[nat Index := last xs]))
      else Inl RangeCheckFailed)"

subsection \<open>What the spawner does to the level\<close>

datatype event =
    SpawnAttempt AWalkerSpawnPointBase
  | BlackListCheck ACharacter_ptr
  | WalkersCheck ACharacter_ptr
  | CallSpawnWalker AWalkerSpawnPointBase ACharacter_ptr
  | CallSpawnDefaultController nat
  | CallDestroy nat
  | CallMoveToLocation nat FVector

subsection \<open>The spawner\<close>

text \<open>
  The fields of \<^verbatim>\<open>AWalkerSpawnerBase\<close> the methods use, then the part of the level
  they act on: how many actors \<^verbatim>\<open>SpawnWalker\<close> has created, which of them are pending
  kill, and the trace of the calls made so far, oldest first.

  Modelled from the spec: the declaration of \<^verbatim>\<open>CurrentIndexToCheck\<close> is in
  \<^verbatim>\<open>WalkerSpawnerBase.h\<close>, which is not among the sources; the spec describes a shared
  counter that is incremented and reduced modulo the current set size at use. It is taken
  as an unsigned 32-bit counter.
\<close>

record AWalkerSpawnerBase =
  bSpawnWalkers :: bool
  NumberOfWalkers :: int
  MinimumWalkDistance :: float
  bUseFixedSeed :: bool
  Seed :: int
  RandomStream :: FRandomStream
  SpawnPoints :: "AWalkerSpawnPointBase list"
  Walkers :: "ACharacter_ptr list"
  WalkersBlackList :: "ACharacter_ptr list"
  CurrentIndexToCheck :: "32 word"
  NumActors :: nat
  PendingKill :: "nat set"
  Trace :: "event list"

text \<open>
  What the engine answers while one spawn attempt or one tick runs: what \<^verbatim>\<open>SpawnWalker\<close>
  yields (\<open>None\<close> for \<^verbatim>\<open>nullptr\<close>, otherwise a new actor and whether it is already
  pending kill), the controller the new actor has after \<^verbatim>\<open>SpawnDefaultController\<close>,
  for every actor the controller it has during this tick and where it stands, and the
  engine's single-precision vector arithmetic: \<^verbatim>\<open>FVector::operator-\<close> and
  \<^verbatim>\<open>FVector::Size()\<close>, with whatever rounding the engine has. The answers may
  differ from one tick to the next in any way. An actor is pending kill when
  \<^verbatim>\<open>SpawnWalker\<close> returned it so or when the spawner has called \<^verbatim>\<open>Destroy\<close> on it;
  whatever else happens to an actor between ticks shows in the controller reported for it.
\<close>

record env =
  SpawnWalkerYields :: "bool option"
  SpawnedController :: "AWalkerAIController option"
  ControllerOf :: "nat \<Rightarrow> AWalkerAIController option"
  LocationOf :: "nat \<Rightarrow> FVector"
  FVector_minus :: "FVector \<Rightarrow> FVector \<Rightarrow> FVector"
  FVector_Size :: "FVector \<Rightarrow> float"

text \<open>
  \<^verbatim>\<open>GetDistance(Location0, Location1)\<close>:
  \<^verbatim>\<open>FMath::Abs((Location0 - Location1).Size())\<close>, on the engine's arithmetic.
\<close>

definition GetDistance :: "env \<Rightarrow> FVector \<Rightarrow> FVector \<Rightarrow> float" where
  "GetDistance e Location0 Location1 =
     FMath_Abs (FVector_Size e (FVector_minus e Location0 Location1))"

definition emit :: "event \<Rightarrow> AWalkerSpawnerBase \<Rightarrow> AWalkerSpawnerBase" where
  "emit ev s = s\<lparr>Trace := Trace s @ [ev]\<rparr>"

text \<open>
  Modelled from the spec: \<^verbatim>\<open>GetCurrentNumberOfWalkers\<close> is defined in
  \<^verbatim>\<open>WalkerSpawnerBase.h\<close>, which is not among the sources; the spec compares the
  number of active agents with the target.
\<close>

definition GetCurrentNumberOfWalkers :: "AWalkerSpawnerBase \<Rightarrow> int" where
  "GetCurrentNumberOfWalkers s = int (length (Walkers s))"

definition WalkerIsValid :: "ACharacter_ptr \<Rightarrow> AWalkerSpawnerBase \<Rightarrow> bool" where
  "WalkerIsValid Walker s = (case Walker of None \<Rightarrow> False | Some a \<Rightarrow> a \<notin> PendingKill s)"

text \<open>
  \<^verbatim>\<open>GetController(Walker)\<close>; the first argument is the engine's answer to
  \<^verbatim>\<open>Cast<AWalkerAIController>(Walker->GetController())\<close>.
\<close>

definition GetController ::
  "(nat \<Rightarrow> AWalkerAIController option) \<Rightarrow> ACharacter_ptr \<Rightarrow> AWalkerSpawnerBase
     \<Rightarrow> AWalkerAIController option" where
  "GetController cast Walker s =
     (if WalkerIsValid Walker s then (case Walker of None \<Rightarrow> None | Some a \<Rightarrow> cast a) else None)"

definition Destroy :: "nat \<Rightarrow> AWalkerSpawnerBase \<Rightarrow> AWalkerSpawnerBase" where
  "Destroy a s = emit (CallDestroy a) (s\<lparr>PendingKill := insert a (PendingKill s)\<rparr>)"

definition MoveToLocation :: "nat \<Rightarrow> FVector \<Rightarrow> AWalkerSpawnerBase \<Rightarrow> AWalkerSpawnerBase" where
  "MoveToLocation a Destination s = emit (CallMoveToLocation a Destination) s"

text \<open>
  \<^verbatim>\<open>SpawnWalker\<close> is implemented outside the class. It yields \<^verbatim>\<open>nullptr\<close>
  (\<open>None\<close>) or a new actor, which may already be pending kill (\<open>Some True\<close>).
\<close>

definition SpawnWalker ::
  "env \<Rightarrow> AWalkerSpawnPointBase \<Rightarrow> AWalkerSpawnerBase \<Rightarrow> ACharacter_ptr \<times> AWalkerSpawnerBase" where
  "SpawnWalker e SpawnPoint s =
     (case SpawnWalkerYields e of
        None \<Rightarrow> (None, emit (CallSpawnWalker SpawnPoint None) s)
      | Some pending \<Rightarrow>
          (Some (NumActors s),
           emit (CallSpawnWalker SpawnPoint (Some (NumActors s)))
             (s\<lparr>NumActors := Suc (NumActors s),
                PendingKill := (if pending then insert (NumActors s) (PendingKill s)
                                else PendingKill s)\<rparr>)))"

definition GetRandomSpawnPoint ::
  "AWalkerSpawnerBase \<Rightarrow> error + (AWalkerSpawnPointBase \<times> AWalkerSpawnerBase)" where
  "GetRandomSpawnPoint s =
     (if \<not> (length (SpawnPoints s) > 0) then Inl CheckFailed
      else case RandRange 0 (int (length (SpawnPoints s)) - 1) (RandomStream s) of
        (Index, rs) \<Rightarrow>
          (case At (SpawnPoints s) Index of
             Inl err \<Rightarrow> Inl err
           | Inr SpawnPoint \<Rightarrow> Inr (SpawnPoint, s\<lparr>RandomStream := rs\<rparr>)))"

definition TryGetValidDestination ::
  "env \<Rightarrow> FVector \<Rightarrow> AWalkerSpawnerBase
     \<Rightarrow> error + (bool \<times> FVector \<times> AWalkerSpawnerBase)" where
  "TryGetValidDestination e Origin s =
     (case GetRandomSpawnPoint s of
        Inl err \<Rightarrow> Inl err
      | Inr (DestinationPoint, s1) \<Rightarrow>
          (let Destination = ActorLocation DestinationPoint
           in Inr (float_ge (GetDistance e Origin Destination) (MinimumWalkDistance s1),
                   Destination, s1)))"

text \<open>
  \<^verbatim>\<open>TryToSpawnWalkerAt\<close>. The attempt is recorded on entry. \<^verbatim>\<open>Walker->...\<close> on a
  null pointer would stop the program; the validity test before it excludes that.
\<close>

definition TryToSpawnWalkerAt ::
  "env \<Rightarrow> AWalkerSpawnPointBase \<Rightarrow> AWalkerSpawnerBase \<Rightarrow> error + (bool \<times> AWalkerSpawnerBase)" where
  "TryToSpawnWalkerAt e SpawnPoint s =
     (case TryGetValidDestination e (ActorLocation SpawnPoint)
             (emit (SpawnAttempt SpawnPoint) s) of
        Inl err \<Rightarrow> Inl err
      | Inr (found, Destination, s1) \<Rightarrow>
          if \<not> found then Inr (False, s1)
          else (case SpawnWalker e SpawnPoint s1 of
            (Walker, s2) \<Rightarrow>
              if \<not> WalkerIsValid Walker s2 then Inr (False, s2)
              else (case Walker of
                None \<Rightarrow> Inl NullDereference
              | Some a \<Rightarrow>
                  (let s3 = emit (CallSpawnDefaultController a) s2
                   in (case GetController (\<lambda>_. SpawnedController e) Walker s3 of
                        None \<Rightarrow> Inr (False, Destroy a s3)
                      | Some Controller \<Rightarrow>
                          Inr (True, MoveToLocation a Destination
                                       (s3\<lparr>Walkers := Walkers s3 @ [Walker]\<rparr>)))))))"

text \<open>\<^verbatim>\<open>TrySetDestination(ACharacter &Walker)\<close>: the argument is a reference, hence an actor.\<close>

definition TrySetDestination ::
  "env \<Rightarrow> nat \<Rightarrow> AWalkerSpawnerBase \<Rightarrow> error + (bool \<times> AWalkerSpawnerBase)" where
  "TrySetDestination e a s =
     (case GetController (ControllerOf e) (Some a) s of
        None \<Rightarrow> Inr (False, s)
      | Some Controller \<Rightarrow>
          (case TryGetValidDestination e (LocationOf e a) s of
             Inl err \<Rightarrow> Inl err
           | Inr (found, Destination, s1) \<Rightarrow>
               if \<not> found then Inr (False, s1)
               else Inr (True, MoveToLocation a Destination s1)))"

text \<open>
  \<^verbatim>\<open>++CurrentIndexToCheck % Num\<close>, evaluated where \<open>Num > 0\<close>: the counter is
  incremented first, and the remainder of an unsigned value is taken.
\<close>

definition NextIndex :: "32 word \<Rightarrow> 'a list \<Rightarrow> int" where
  "NextIndex c xs = int (unat (c + 1) mod length xs)"

text \<open>\<^verbatim>\<open>Tick\<close>, first block: top up the population by at most one walker.\<close>

definition Tick_Spawn :: "env \<Rightarrow> AWalkerSpawnerBase \<Rightarrow> error + AWalkerSpawnerBase" where
  "Tick_Spawn e s =
     (if bSpawnWalkers s \<and> NumberOfWalkers s > GetCurrentNumberOfWalkers s
      then case GetRandomSpawnPoint s of
             Inl err \<Rightarrow> Inl err
           | Inr (SpawnPoint, s1) \<Rightarrow>
               (case TryToSpawnWalkerAt e SpawnPoint s1 of
                  Inl err \<Rightarrow> Inl err
                | Inr (spawned, s2) \<Rightarrow> Inr s2)
      else Inr s)"

text \<open>\<^verbatim>\<open>Tick\<close>, second block: one walker of the black list.\<close>

definition Tick_BlackList :: "env \<Rightarrow> AWalkerSpawnerBase \<Rightarrow> error + AWalkerSpawnerBase" where
  "Tick_BlackList e s =
     (if length (WalkersBlackList s) > 0
      then
        (let Index = NextIndex (CurrentIndexToCheck s) (WalkersBlackList s);
             s1 = s\<lparr>CurrentIndexToCheck := CurrentIndexToCheck s + 1\<rparr>
         in case At (WalkersBlackList s1) Index of
              Inl err \<Rightarrow> Inl err
            | Inr Walker \<Rightarrow>
                (let s2 = emit (BlackListCheck Walker) s1
                 in if (case GetController (ControllerOf e) Walker s2 of
                          None \<Rightarrow> True
                        | Some Controller \<Rightarrow> WalkerIsStuck Controller)
                    then case RemoveAtSwap Index (WalkersBlackList s2) of
                           Inl err \<Rightarrow> Inl err
                         | Inr rest \<Rightarrow>
                             (let s3 = s2\<lparr>WalkersBlackList := rest\<rparr>
                              in Inr (case Walker of None \<Rightarrow> s3 | Some a \<Rightarrow> Destroy a s3))
                    else Inr s2))
      else Inr s)"

text \<open>\<^verbatim>\<open>Tick\<close>, third block: one walker of the active ones.\<close>

definition Tick_Walkers :: "env \<Rightarrow> AWalkerSpawnerBase \<Rightarrow> error + AWalkerSpawnerBase" where
  "Tick_Walkers e s =
     (if length (Walkers s) > 0
      then
        (let Index = NextIndex (CurrentIndexToCheck s) (Walkers s);
             s1 = s\<lparr>CurrentIndexToCheck := CurrentIndexToCheck s + 1\<rparr>
         in case At (Walkers s1) Index of
              Inl err \<Rightarrow> Inl err
            | Inr Walker \<Rightarrow>
                (let s2 = emit (WalkersCheck Walker) s1
                 in case GetController (ControllerOf e) Walker s2 of
                      None \<Rightarrow>
                        (case RemoveAtSwap Index (Walkers s2) of
                           Inl err \<Rightarrow> Inl err
                         | Inr rest \<Rightarrow>
                             (let s3 = s2\<lparr>Walkers := rest\<rparr>
                              in Inr (case Walker of None \<Rightarrow> s3 | Some a \<Rightarrow> Destroy a s3)))
                    | Some Controller \<Rightarrow>
                        if WalkerIsStuck Controller
                        then case Walker of
                          None \<Rightarrow> Inl NullDereference
                        | Some a \<Rightarrow>
                            (case TrySetDestination e a s2 of
                               Inl err \<Rightarrow> Inl err
                             | Inr (moved, s3) \<Rightarrow>
                                 (let s4 = s3\<lparr>WalkersBlackList := WalkersBlackList s3 @ [Walker]\<rparr>
                                  in case RemoveAtSwap Index (Walkers s4) of
                                       Inl err \<Rightarrow> Inl err
                                     | Inr rest \<Rightarrow> Inr (s4\<lparr>Walkers := rest\<rparr>)))
                        else Inr s2))
      else Inr s)"

definition Tick :: "env \<Rightarrow> AWalkerSpawnerBase \<Rightarrow> error + AWalkerSpawnerBase" where
  "Tick e s =
     (case Tick_Spawn e s of
        Inl err \<Rightarrow> Inl err
      | Inr s1 \<Rightarrow>
          (case Tick_BlackList e s1 of
             Inl err \<Rightarrow> Inl err
           | Inr s2 \<Rightarrow> Tick_Walkers e s2))"

definition SetNumberOfWalkers :: "int \<Rightarrow> AWalkerSpawnerBase \<Rightarrow> AWalkerSpawnerBase" where
  "SetNumberOfWalkers Count s =
     (if Count > 0 then s\<lparr>bSpawnWalkers := True, NumberOfWalkers := Count\<rparr>
      else s\<lparr>bSpawnWalkers := False\<rparr>)"

subsection \<open>Startup\<close>

text \<open>
  What \<^verbatim>\<open>BeginPlay\<close> finds: the spawn points of the level in the order the actor
  iterator yields them, the random streams the engine gives for a new seed and for a fixed
  one, and the engine's answers during the \<open>i\<close>-th spawn attempt of the startup loop.
\<close>

record level =
  LevelSpawnPoints :: "AWalkerSpawnPointBase list"
  NewSeedDraws :: "nat \<Rightarrow> nat"
  SeedDraws :: "int \<Rightarrow> nat \<Rightarrow> nat"
  AnswersAt :: "nat \<Rightarrow> env"

text \<open>The startup loop over \<open>i\<close>, with the count of walkers spawned so far.\<close>

fun BeginPlay_loop ::
  "level \<Rightarrow> AWalkerSpawnPointBase list \<Rightarrow> nat list \<Rightarrow> nat \<Rightarrow> AWalkerSpawnerBase
     \<Rightarrow> error + (nat \<times> AWalkerSpawnerBase)" where
  "BeginPlay_loop lv BeginSpawnPoints [] Count s = Inr (Count, s)"
| "BeginPlay_loop lv BeginSpawnPoints (i # rest) Count s =
     (if length BeginSpawnPoints = 0 then Inl DivisionByZero
      else case At BeginSpawnPoints (int (i mod length BeginSpawnPoints)) of
        Inl err \<Rightarrow> Inl err
      | Inr SpawnPoint \<Rightarrow>
          (case TryToSpawnWalkerAt (AnswersAt lv i) SpawnPoint s of
             Inl err \<Rightarrow> Inl err
           | Inr (spawned, s1) \<Rightarrow>
               BeginPlay_loop lv BeginSpawnPoints rest (if spawned then Suc Count else Count) s1))"

definition BeginPlay :: "level \<Rightarrow> AWalkerSpawnerBase \<Rightarrow> error + AWalkerSpawnerBase" where
  "BeginPlay lv s =
     (let s1 = s\<lparr>NumberOfWalkers := max 0 (NumberOfWalkers s)\<rparr>;
          s2 = s1\<lparr>RandomStream :=
                    (if \<not> bUseFixedSeed s1 then \<lparr>Draws = NewSeedDraws lv, Consumed = 0\<rparr>
                     else \<lparr>Draws = SeedDraws lv (Seed s1), Consumed = 0\<rparr>)\<rparr>;
          BeginSpawnPoints = LevelSpawnPoints lv;
          s3 = s2\<lparr>SpawnPoints := SpawnPoints s2 @ filter IsWalkerSpawnPoint BeginSpawnPoints\<rparr>;
          s4 = (if length (SpawnPoints s3) < 2 then s3\<lparr>bSpawnWalkers := False\<rparr> else s3)
      in if bSpawnWalkers s4
         then case BeginPlay_loop lv BeginSpawnPoints [0..<nat (NumberOfWalkers s4)] 0 s4 of
                Inl err \<Rightarrow> Inl err
              | Inr (Count, s5) \<Rightarrow> Inr s5
         else Inr s4)"

subsection \<open>Executions\<close>

text \<open>
  A spawner as constructed: its containers are empty, no actor has been spawned and
  nothing has been called; the configuration is arbitrary.
\<close>

definition constructed :: "AWalkerSpawnerBase \<Rightarrow> bool" where
  "constructed s \<longleftrightarrow>
     SpawnPoints s = [] \<and> Walkers s = [] \<and> WalkersBlackList s = [] \<and>
     NumActors s = 0 \<and> PendingKill s = {} \<and> Trace s = []"

inductive step :: "AWalkerSpawnerBase \<Rightarrow> AWalkerSpawnerBase \<Rightarrow> bool" where
  step_Tick: "Tick e s = Inr s' \<Longrightarrow> step s s'"
| step_SetNumberOfWalkers: "step s (SetNumberOfWalkers Count s)"

inductive reachable :: "AWalkerSpawnerBase \<Rightarrow> bool" where
  reachable_BeginPlay: "constructed s \<Longrightarrow> BeginPlay lv s = Inr s' \<Longrightarrow> reachable s'"
| reachable_step: "reachable s \<Longrightarrow> step s s' \<Longrightarrow> reachable s'"

subsection \<open>Notions used in the statements\<close>

text \<open>
  The element the round robin selects in a non-empty array and the array after that
  element has been removed by swapping; the spawn point the next draw of the random stream
  selects and the spawner after the draw; the walkers the spawner holds, and the actors
  among a list of pointers.
\<close>

definition picked :: "32 word \<Rightarrow> 'a list \<Rightarrow> 'a" where
  "picked c xs = xs ! (unat (c + 1) mod length xs)"

definition swap_removed :: "32 word \<Rightarrow> 'a list \<Rightarrow> 'a list" where
  "swap_removed c xs = butlast (xs[unat (c + 1) mod length xs := last xs])"

definition drawn_point :: "AWalkerSpawnerBase \<Rightarrow> AWalkerSpawnPointBase" where
  "drawn_point s =
     SpawnPoints s ! (Draws (RandomStream s) (Consumed (RandomStream s)) mod length (SpawnPoints s))"

definition after_draw :: "AWalkerSpawnerBase \<Rightarrow> AWalkerSpawnerBase" where
  "after_draw s = s\<lparr>RandomStream := (RandomStream s)\<lparr>Consumed := Suc (Consumed (RandomStream s))\<rparr>\<rparr>"

definition managed :: "AWalkerSpawnerBase \<Rightarrow> ACharacter_ptr list" where
  "managed s = Walkers s @ WalkersBlackList s"

definition actors :: "ACharacter_ptr list \<Rightarrow> nat set" where
  "actors ps = {a. Some a \<in> set ps}"

definition consistent :: "AWalkerSpawnerBase \<Rightarrow> bool" where
  "consistent s \<longleftrightarrow>
     distinct (managed s) \<and> None \<notin> set (managed s) \<and>
     actors (managed s) \<inter> PendingKill s = {} \<and>
     actors (managed s) \<union> PendingKill s = {..<NumActors s} \<and>
     (managed s \<noteq> [] \<longrightarrow> SpawnPoints s \<noteq> [])"

subsection \<open>A small level\<close>

text \<open>
  Two spawn points ten units apart and a minimum walk distance of five; one walker is
  requested. The engine's random stream yields 1, 2, 3, ... whatever the seed. In the
  environment \<open>calm\<close> spawning works and no controller is stuck; in \<open>stalled\<close> every
  controller is stuck; in \<open>no_controller\<close> the spawned actor gets no controller. The
  managed actors stand at \<open>(1, 0, 0)\<close>. All coordinates are small whole numbers on one
  axis, on which the differences, squares and square roots of single precision are exact:
  the engine's vector arithmetic is the exact one there.
\<close>

definition vec :: "real \<Rightarrow> real \<Rightarrow> real \<Rightarrow> FVector" where
  "vec x y z = (Finite x, Finite y, Finite z)"

definition exact_minus :: "FVector \<Rightarrow> FVector \<Rightarrow> FVector" where
  "exact_minus a b =
     (case (a, b) of
        ((Finite ax, Finite ay, Finite az), (Finite bx, Finite by, Finite bz)) \<Rightarrow>
          (Finite (ax - bx), Finite (ay - by), Finite (az - bz))
      | _ \<Rightarrow> (NaN, NaN, NaN))"

definition exact_Size :: "FVector \<Rightarrow> float" where
  "exact_Size v =
     (case v of
        (Finite x, Finite y, Finite z) \<Rightarrow> Finite (sqrt (x * x + y * y + z * z))
      | _ \<Rightarrow> NaN)"

definition pointA :: AWalkerSpawnPointBase where
  "pointA = \<lparr>ActorLocation = vec 0 0 0, IsWalkerSpawnPoint = True\<rparr>"

definition pointB :: AWalkerSpawnPointBase where
  "pointB = \<lparr>ActorLocation = vec 10 0 0, IsWalkerSpawnPoint = True\<rparr>"

definition calm :: env where
  "calm = \<lparr>SpawnWalkerYields = Some False,
            SpawnedController = Some (AWalkerAIController False),
            ControllerOf = (\<lambda>a. Some (AWalkerAIController False)),
            LocationOf = (\<lambda>a. vec 1 0 0),
            FVector_minus = exact_minus, FVector_Size = exact_Size\<rparr>"

definition stalled :: env where
  "stalled = calm\<lparr>ControllerOf := (\<lambda>a. Some (AWalkerAIController True))\<rparr>"

definition no_controller :: env where
  "no_controller = calm\<lparr>SpawnedController := None\<rparr>"

definition level2 :: level where
  "level2 = \<lparr>LevelSpawnPoints = [pointA, pointB], NewSeedDraws = Suc,
              SeedDraws = (\<lambda>seed. Suc), AnswersAt = (\<lambda>i. calm)\<rparr>"

definition spawner0 :: AWalkerSpawnerBase where
  "spawner0 = \<lparr>bSpawnWalkers = True, NumberOfWalkers = 1, MinimumWalkDistance = Finite 5,
     bUseFixedSeed = True, Seed = 0, RandomStream = \<lparr>Draws = (\<lambda>n. 0), Consumed = 0\<rparr>,
     SpawnPoints = [], Walkers = [], WalkersBlackList = [], CurrentIndexToCheck = 0,
     NumActors = 0, PendingKill = {}, Trace = []\<rparr>"

text \<open>The spawner after \<^verbatim>\<open>BeginPlay\<close> in that level: one walker, sent to the far point.\<close>

definition spawner1 :: AWalkerSpawnerBase where
  "spawner1 = \<lparr>bSpawnWalkers = True, NumberOfWalkers = 1, MinimumWalkDistance = Finite 5,
     bUseFixedSeed = True, Seed = 0, RandomStream = \<lparr>Draws = Suc, Consumed = 1\<rparr>,
     SpawnPoints = [pointA, pointB], Walkers = [Some 0], WalkersBlackList = [],
     CurrentIndexToCheck = 0, NumActors = 1, PendingKill = {},
     Trace = [SpawnAttempt pointA, CallSpawnWalker pointA (Some 0),
              CallSpawnDefaultController 0, CallMoveToLocation 0 (vec 10 0 0)]\<rparr>"

text \<open>
  Three ticks in that level. In the first every controller is stuck: the walker is
  quarantined, and the destination drawn for it is too close. In the second none is
  stuck: a second walker is spawned and the quarantined one stays where it is. In the
  third every controller is stuck again: the quarantined walker is destroyed and the
  second one is quarantined, with a new destination.
\<close>

definition spawner2 :: AWalkerSpawnerBase where
  "spawner2 = spawner1\<lparr>RandomStream := \<lparr>Draws = Suc, Consumed = 2\<rparr>,
     Walkers := [], WalkersBlackList := [Some 0], CurrentIndexToCheck := 1,
     Trace := Trace spawner1 @ [WalkersCheck (Some 0)]\<rparr>"

definition spawner3 :: AWalkerSpawnerBase where
  "spawner3 = spawner2\<lparr>RandomStream := \<lparr>Draws = Suc, Consumed = 4\<rparr>,
     Walkers := [Some 1], CurrentIndexToCheck := 3, NumActors := 2,
     Trace := Trace spawner2 @
       [SpawnAttempt pointB, CallSpawnWalker pointB (Some 1), CallSpawnDefaultController 1,
        CallMoveToLocation 1 (vec 0 0 0), BlackListCheck (Some 0), WalkersCheck (Some 1)]\<rparr>"

definition spawner4 :: AWalkerSpawnerBase where
  "spawner4 = spawner3\<lparr>RandomStream := \<lparr>Draws = Suc, Consumed = 5\<rparr>,
     Walkers := [], WalkersBlackList := [Some 1], CurrentIndexToCheck := 5,
     PendingKill := {0},
     Trace := Trace spawner3 @
       [BlackListCheck (Some 0), CallDestroy 0, WalkersCheck (Some 1),
        CallMoveToLocation 1 (vec 10 0 0)]\<rparr>"

text \<open>
  The same level with a single spawn point, and with none: \<^verbatim>\<open>BeginPlay\<close> switches
  spawning off.
\<close>

definition level1 :: level where
  "level1 = level2\<lparr>LevelSpawnPoints := [pointA]\<rparr>"

definition level0 :: level where
  "level0 = level2\<lparr>LevelSpawnPoints := []\<rparr>"

definition unspawned1 :: AWalkerSpawnerBase where
  "unspawned1 = spawner0\<lparr>bSpawnWalkers := False,
     RandomStream := \<lparr>Draws = Suc, Consumed = 0\<rparr>, SpawnPoints := [pointA]\<rparr>"

definition unspawned0 :: AWalkerSpawnerBase where
  "unspawned0 = spawner0\<lparr>bSpawnWalkers := False,
     RandomStream := \<lparr>Draws = Suc, Consumed = 0\<rparr>\<rparr>"

text \<open>
  The third tick after its black-list block; the first state after a spawn attempt at
  the far point in which the actor gets no controller; and the spawner of the
  single-point level after \<^verbatim>\<open>SetNumberOfWalkers(1)\<close> and one tick.
\<close>

definition spawner3_checked :: AWalkerSpawnerBase where
  "spawner3_checked = spawner3\<lparr>WalkersBlackList := [], CurrentIndexToCheck := 4,
     PendingKill := {0},
     Trace := Trace spawner3 @ [BlackListCheck (Some 0), CallDestroy 0]\<rparr>"

definition spawner1_failed :: AWalkerSpawnerBase where
  "spawner1_failed = spawner1\<lparr>RandomStream := \<lparr>Draws = Suc, Consumed = 2\<rparr>,
     NumActors := 2, PendingKill := {1},
     Trace := Trace spawner1 @
       [SpawnAttempt pointB, CallSpawnWalker pointB (Some 1), CallSpawnDefaultController 1,
        CallDestroy 1]\<rparr>"

definition respawning1 :: AWalkerSpawnerBase where
  "respawning1 = unspawned1\<lparr>bSpawnWalkers := True,
     RandomStream := \<lparr>Draws = Suc, Consumed = 2\<rparr>, Trace := [SpawnAttempt pointA]\<rparr>"

subsection \<open>Reading the trace\<close>

text \<open>
  The events a run from \<open>s\<close> to \<open>s'\<close> has added to the trace; the three kinds of work a
  tick does, as the trace shows them; the spawn points at which spawns were attempted; the
  events that are calls into the engine.
\<close>

definition since :: "AWalkerSpawnerBase \<Rightarrow> AWalkerSpawnerBase \<Rightarrow> event list" where
  "since s s' = drop (length (Trace s)) (Trace s')"

datatype phase = SpawnPhase | BlackListPhase | WalkersPhase

fun phase_of :: "event \<Rightarrow> phase option" where
  "phase_of (SpawnAttempt p) = Some SpawnPhase"
| "phase_of (BlackListCheck w) = Some BlackListPhase"
| "phase_of (WalkersCheck w) = Some WalkersPhase"
| "phase_of ev = None"

definition phases :: "event list \<Rightarrow> phase list" where
  "phases tr = List.map_filter phase_of tr"

fun attempt_of :: "event \<Rightarrow> AWalkerSpawnPointBase option" where
  "attempt_of (SpawnAttempt p) = Some p"
| "attempt_of ev = None"

definition spawn_attempts :: "event list \<Rightarrow> AWalkerSpawnPointBase list" where
  "spawn_attempts tr = List.map_filter attempt_of tr"

fun is_call :: "event \<Rightarrow> bool" where
  "is_call (CallSpawnWalker p w) = True"
| "is_call (CallSpawnDefaultController a) = True"
| "is_call (CallDestroy a) = True"
| "is_call (CallMoveToLocation a d) = True"
| "is_call ev = False"

section \<open>Properties\<close>

subsection \<open>Containers\<close>

lemma At_NextIndex: "xs \<noteq> [] \<Longrightarrow> At xs (NextIndex c xs) = Inr (picked c xs)"
  by (simp add: At_def NextIndex_def picked_def)

lemma RemoveAtSwap_NextIndex:
  "xs \<noteq> [] \<Longrightarrow> RemoveAtSwap (NextIndex c xs) xs = Inr (swap_removed c xs)"
  by (simp add: RemoveAtSwap_def NextIndex_def swap_removed_def)

lemma picked_in_set: "xs \<noteq> [] \<Longrightarrow> picked c xs \<in> set xs"
  by (simp add: picked_def)

lemma swap_remove_distinct:
  assumes "distinct xs" "i < length xs"
  shows "distinct (butlast (xs[i := last xs]))"
    and "set (butlast (xs[i := last xs])) = set xs - {xs ! i}"
proof -
  from assms(2) obtain ys l where xs: "xs = ys @ [l]"
    by (cases xs rule: rev_cases) auto
  with assms have d: "distinct ys" "l \<notin> set ys" and i: "i \<le> length ys" by auto
  show "distinct (butlast (xs[i := last xs]))"
    using d i by (cases "i = length ys") (auto simp: xs butlast_list_update list_update_append distinct_list_update)
  show "set (butlast (xs[i := last xs])) = set xs - {xs ! i}"
    using d i by (cases "i = length ys") (auto simp: xs butlast_list_update list_update_append set_update_distinct nth_append)
qed

lemma swap_remove_keeps:
  assumes "i < length xs"
  shows "set xs \<subseteq> insert (xs ! i) (set (butlast (xs[i := last xs])))"
proof -
  from assms obtain ys l where xs: "xs = ys @ [l]"
    by (cases xs rule: rev_cases) auto
  with assms have i: "i \<le> length ys" by auto
  show ?thesis
  proof (cases "i = length ys")
    case True
    then show ?thesis by (auto simp: xs)
  next
    case False
    with i have "i < length ys" by simp
    then show ?thesis
      by (auto simp: xs butlast_list_update list_update_append nth_append set_conv_nth nth_list_update)
  qed
qed

lemma swap_removed_distinct:
  "distinct xs \<Longrightarrow> xs \<noteq> [] \<Longrightarrow> distinct (swap_removed c xs)"
  "distinct xs \<Longrightarrow> xs \<noteq> [] \<Longrightarrow> set (swap_removed c xs) = set xs - {picked c xs}"
  by (simp_all add: swap_removed_def picked_def swap_remove_distinct)

lemma swap_removed_keeps: "xs \<noteq> [] \<Longrightarrow> set xs \<subseteq> insert (picked c xs) (set (swap_removed c xs))"
  unfolding swap_removed_def picked_def by (rule swap_remove_keeps) simp

lemma swap_removed_subset: "set (swap_removed c xs) \<subseteq> set xs"
proof (cases xs rule: rev_cases)
  case Nil
  then show ?thesis by (simp add: swap_removed_def)
next
  case (snoc ys l)
  have "set (butlast (xs[i := last xs])) \<subseteq> set xs" for i
    using set_update_subset_insert [of ys i l]
    by (cases "i = length ys") (auto simp: snoc butlast_list_update list_update_append split: nat.splits)
  then show ?thesis by (simp add: swap_removed_def)
qed

lemma actors_simps [simp]:
  "actors [] = {}"
  "actors (Some a # ps) = insert a (actors ps)"
  "actors (None # ps) = actors ps"
  "actors (ps @ qs) = actors ps \<union> actors qs"
  by (auto simp: actors_def)

lemma actors_iff: "a \<in> actors ps \<longleftrightarrow> Some a \<in> set ps"
  by (simp add: actors_def)

subsection \<open>Engine calls\<close>

lemma emit_fields [simp]:
  "bSpawnWalkers (emit ev s) = bSpawnWalkers s"
  "NumberOfWalkers (emit ev s) = NumberOfWalkers s"
  "MinimumWalkDistance (emit ev s) = MinimumWalkDistance s"
  "RandomStream (emit ev s) = RandomStream s"
  "SpawnPoints (emit ev s) = SpawnPoints s"
  "Walkers (emit ev s) = Walkers s"
  "WalkersBlackList (emit ev s) = WalkersBlackList s"
  "CurrentIndexToCheck (emit ev s) = CurrentIndexToCheck s"
  "NumActors (emit ev s) = NumActors s"
  "PendingKill (emit ev s) = PendingKill s"
  "Trace (emit ev s) = Trace s @ [ev]"
  by (simp_all add: emit_def)

lemma after_draw_fields [simp]:
  "bSpawnWalkers (after_draw s) = bSpawnWalkers s"
  "NumberOfWalkers (after_draw s) = NumberOfWalkers s"
  "MinimumWalkDistance (after_draw s) = MinimumWalkDistance s"
  "Draws (RandomStream (after_draw s)) = Draws (RandomStream s)"
  "Consumed (RandomStream (after_draw s)) = Suc (Consumed (RandomStream s))"
  "SpawnPoints (after_draw s) = SpawnPoints s"
  "Walkers (after_draw s) = Walkers s"
  "WalkersBlackList (after_draw s) = WalkersBlackList s"
  "CurrentIndexToCheck (after_draw s) = CurrentIndexToCheck s"
  "NumActors (after_draw s) = NumActors s"
  "PendingKill (after_draw s) = PendingKill s"
  "Trace (after_draw s) = Trace s"
  by (simp_all add: after_draw_def)

lemma Destroy_fields [simp]:
  "bSpawnWalkers (Destroy a s) = bSpawnWalkers s"
  "NumberOfWalkers (Destroy a s) = NumberOfWalkers s"
  "MinimumWalkDistance (Destroy a s) = MinimumWalkDistance s"
  "RandomStream (Destroy a s) = RandomStream s"
  "SpawnPoints (Destroy a s) = SpawnPoints s"
  "Walkers (Destroy a s) = Walkers s"
  "WalkersBlackList (Destroy a s) = WalkersBlackList s"
  "CurrentIndexToCheck (Destroy a s) = CurrentIndexToCheck s"
  "NumActors (Destroy a s) = NumActors s"
  "PendingKill (Destroy a s) = insert a (PendingKill s)"
  "Trace (Destroy a s) = Trace s @ [CallDestroy a]"
  by (simp_all add: Destroy_def)

lemma MoveToLocation_fields [simp]:
  "bSpawnWalkers (MoveToLocation a d s) = bSpawnWalkers s"
  "NumberOfWalkers (MoveToLocation a d s) = NumberOfWalkers s"
  "MinimumWalkDistance (MoveToLocation a d s) = MinimumWalkDistance s"
  "RandomStream (MoveToLocation a d s) = RandomStream s"
  "SpawnPoints (MoveToLocation a d s) = SpawnPoints s"
  "Walkers (MoveToLocation a d s) = Walkers s"
  "WalkersBlackList (MoveToLocation a d s) = WalkersBlackList s"
  "CurrentIndexToCheck (MoveToLocation a d s) = CurrentIndexToCheck s"
  "NumActors (MoveToLocation a d s) = NumActors s"
  "PendingKill (MoveToLocation a d s) = PendingKill s"
  "Trace (MoveToLocation a d s) = Trace s @ [CallMoveToLocation a d]"
  by (simp_all add: MoveToLocation_def)

lemma GetController_eq:
  "GetController f W s =
     (case W of None \<Rightarrow> None | Some a \<Rightarrow> if a \<in> PendingKill s then None else f a)"
  by (simp add: GetController_def WalkerIsValid_def split: option.splits)

lemma GetController_same:
  "PendingKill s' = PendingKill s \<Longrightarrow> GetController f W s' = GetController f W s"
  by (simp add: GetController_eq split: option.splits)

lemma GetController_Some:
  "GetController f W s = Some C \<Longrightarrow> \<exists>a. W = Some a \<and> a \<notin> PendingKill s \<and> f a = Some C"
  by (simp add: GetController_eq split: option.splits if_splits)

subsection \<open>Drawing a spawn point\<close>

lemma GetRandomSpawnPoint_ok:
  "SpawnPoints s \<noteq> [] \<Longrightarrow> GetRandomSpawnPoint s = Inr (drawn_point s, after_draw s)"
  by (simp add: GetRandomSpawnPoint_def RandRange_def At_def Let_def drawn_point_def after_draw_def)

lemma GetRandomSpawnPoint_empty: "SpawnPoints s = [] \<Longrightarrow> GetRandomSpawnPoint s = Inl CheckFailed"
  by (simp add: GetRandomSpawnPoint_def)

lemma TryGetValidDestination_ok:
  "SpawnPoints s \<noteq> [] \<Longrightarrow>
   TryGetValidDestination e Origin s =
     Inr (float_ge (GetDistance e Origin (ActorLocation (drawn_point s))) (MinimumWalkDistance s),
          ActorLocation (drawn_point s), after_draw s)"
  by (simp add: TryGetValidDestination_def GetRandomSpawnPoint_ok Let_def)

lemma TryGetValidDestination_empty:
  "SpawnPoints s = [] \<Longrightarrow> TryGetValidDestination e Origin s = Inl CheckFailed"
  by (simp add: TryGetValidDestination_def GetRandomSpawnPoint_empty)

lemma drawn_point_emit [simp]: "drawn_point (emit ev s) = drawn_point s"
  by (simp add: drawn_point_def)

lemma drawn_point_in_set: "SpawnPoints s \<noteq> [] \<Longrightarrow> drawn_point s \<in> set (SpawnPoints s)"
  by (simp add: drawn_point_def)

subsection \<open>Traces\<close>

lemma since_append [simp]: "Trace s' = Trace s @ tr \<Longrightarrow> since s s' = tr"
  by (simp add: since_def)

lemma since_self [simp]: "since s s = []"
  by (simp add: since_def)

lemma phases_simps [simp]:
  "phases [] = []"
  "phases (ev # tr) = (case phase_of ev of None \<Rightarrow> phases tr | Some p \<Rightarrow> p # phases tr)"
  "phases (tr @ tr') = phases tr @ phases tr'"
  by (simp_all add: phases_def map_filter_def split: option.splits)

lemma spawn_attempts_simps [simp]:
  "spawn_attempts [] = []"
  "spawn_attempts (ev # tr) =
     (case attempt_of ev of None \<Rightarrow> spawn_attempts tr | Some p \<Rightarrow> p # spawn_attempts tr)"
  "spawn_attempts (tr @ tr') = spawn_attempts tr @ spawn_attempts tr'"
  by (simp_all add: spawn_attempts_def map_filter_def split: option.splits)

lemma calls_only:
  "list_all is_call tr \<Longrightarrow> phases tr = [] \<and> spawn_attempts tr = []"
  by (induction tr) (auto elim: is_call.elims)

subsection \<open>One spawn attempt\<close>

lemma TryToSpawnWalkerAt_empty:
  "SpawnPoints s = [] \<Longrightarrow> TryToSpawnWalkerAt e sp s = Inl CheckFailed"
  by (simp add: TryToSpawnWalkerAt_def TryGetValidDestination_empty)

text \<open>The five ways an attempt ends, with the trace each leaves.\<close>

lemma TryToSpawnWalkerAt_cases:
  assumes "TryToSpawnWalkerAt e sp s = Inr (ok, s')"
  shows "SpawnPoints s \<noteq> [] \<and> SpawnPoints s' = SpawnPoints s \<and>
     WalkersBlackList s' = WalkersBlackList s \<and>
     CurrentIndexToCheck s' = CurrentIndexToCheck s \<and>
     bSpawnWalkers s' = bSpawnWalkers s \<and> NumberOfWalkers s' = NumberOfWalkers s \<and>
     MinimumWalkDistance s' = MinimumWalkDistance s \<and>
     RandomStream s' = RandomStream (after_draw s) \<and>
     (\<not> ok \<and> Walkers s' = Walkers s \<and> NumActors s' = NumActors s \<and>
        PendingKill s' = PendingKill s \<and>
        (Trace s' = Trace s @ [SpawnAttempt sp] \<or>
         Trace s' = Trace s @ [SpawnAttempt sp, CallSpawnWalker sp None])
      \<or>
      \<not> ok \<and> Walkers s' = Walkers s \<and> NumActors s' = Suc (NumActors s) \<and>
        NumActors s \<in> PendingKill s' \<and> PendingKill s' \<subseteq> insert (NumActors s) (PendingKill s) \<and>
        PendingKill s \<subseteq> PendingKill s' \<and>
        (Trace s' = Trace s @ [SpawnAttempt sp, CallSpawnWalker sp (Some (NumActors s))] \<or>
         Trace s' = Trace s @ [SpawnAttempt sp, CallSpawnWalker sp (Some (NumActors s)),
                               CallSpawnDefaultController (NumActors s), CallDestroy (NumActors s)])
      \<or>
      ok \<and> Walkers s' = Walkers s @ [Some (NumActors s)] \<and> NumActors s' = Suc (NumActors s) \<and>
        PendingKill s' = PendingKill s \<and> NumActors s \<notin> PendingKill s \<and>
        Trace s' = Trace s @ [SpawnAttempt sp, CallSpawnWalker sp (Some (NumActors s)),
                              CallSpawnDefaultController (NumActors s),
                              CallMoveToLocation (NumActors s) (ActorLocation (drawn_point s))])"
proof (cases "SpawnPoints s = []")
  case True
  with assms show ?thesis by (simp add: TryToSpawnWalkerAt_empty)
next
  case False
  with assms show ?thesis
    by (auto simp: TryToSpawnWalkerAt_def TryGetValidDestination_ok SpawnWalker_def
        WalkerIsValid_def GetController_def Let_def
        split: if_splits option.splits)
qed

lemma TryToSpawnWalkerAt_effect:
  assumes "TryToSpawnWalkerAt e sp s = Inr (ok, s')"
  shows "SpawnPoints s \<noteq> [] \<and> SpawnPoints s' = SpawnPoints s \<and>
     WalkersBlackList s' = WalkersBlackList s \<and>
     (if ok then Walkers s' = Walkers s @ [Some (NumActors s)] \<and> NumActors s' = Suc (NumActors s) \<and>
                 PendingKill s' = PendingKill s \<and> NumActors s \<notin> PendingKill s
      else Walkers s' = Walkers s \<and>
           (NumActors s' = NumActors s \<and> PendingKill s' = PendingKill s \<or>
            NumActors s' = Suc (NumActors s) \<and> PendingKill s' = insert (NumActors s) (PendingKill s)))"
  using TryToSpawnWalkerAt_cases [OF assms] by auto

lemma TryToSpawnWalkerAt_trace:
  assumes "TryToSpawnWalkerAt e sp s = Inr (ok, s')"
  shows "\<exists>calls. Trace s' = Trace s @ SpawnAttempt sp # calls \<and> list_all is_call calls"
  using TryToSpawnWalkerAt_cases [OF assms] by auto

lemma TryToSpawnWalkerAt_total:
  "SpawnPoints s \<noteq> [] \<Longrightarrow> \<exists>ok s'. TryToSpawnWalkerAt e sp s = Inr (ok, s')"
  by (auto simp: TryToSpawnWalkerAt_def TryGetValidDestination_ok SpawnWalker_def
        WalkerIsValid_def GetController_def Let_def
        split: if_splits option.splits)

subsection \<open>The blocks of a tick\<close>

lemma Tick_Spawn_eq:
  "Tick_Spawn e s =
     (if bSpawnWalkers s \<and> int (length (Walkers s)) < NumberOfWalkers s
      then if SpawnPoints s = [] then Inl CheckFailed
           else case TryToSpawnWalkerAt e (drawn_point s) (after_draw s) of
                  Inl err \<Rightarrow> Inl err
                | Inr (spawned, s2) \<Rightarrow> Inr s2
      else Inr s)"
  by (simp add: Tick_Spawn_def GetCurrentNumberOfWalkers_def GetRandomSpawnPoint_ok
      GetRandomSpawnPoint_empty)

lemma Tick_BlackList_eq:
  "Tick_BlackList e s = Inr
     (if WalkersBlackList s = [] then s
      else let Walker = picked (CurrentIndexToCheck s) (WalkersBlackList s);
               s2 = emit (BlackListCheck Walker) (s\<lparr>CurrentIndexToCheck := CurrentIndexToCheck s + 1\<rparr>)
           in if (case GetController (ControllerOf e) Walker s of None \<Rightarrow> True
                  | Some Controller \<Rightarrow> WalkerIsStuck Controller)
              then (let s3 = s2\<lparr>WalkersBlackList := swap_removed (CurrentIndexToCheck s) (WalkersBlackList s)\<rparr>
                    in case Walker of None \<Rightarrow> s3 | Some a \<Rightarrow> Destroy a s3)
              else s2)"
proof (cases "WalkersBlackList s = []")
  case True
  then show ?thesis by (simp add: Tick_BlackList_def)
next
  case False
  have "GetController f W (emit ev (s\<lparr>CurrentIndexToCheck := c\<rparr>)) = GetController f W s" for f W ev c
    by (rule GetController_same) simp
  with False show ?thesis
    unfolding Tick_BlackList_def Let_def
    by (simp add: At_NextIndex RemoveAtSwap_NextIndex)
qed

lemma TrySetDestination_eq:
  assumes "GetController (ControllerOf e) (Some a) s = Some C" "SpawnPoints s \<noteq> []"
  shows "TrySetDestination e a s =
     Inr (float_ge (GetDistance e (LocationOf e a) (ActorLocation (drawn_point s)))
                         (MinimumWalkDistance s),
          if float_ge (GetDistance e (LocationOf e a) (ActorLocation (drawn_point s)))
                         (MinimumWalkDistance s)
          then MoveToLocation a (ActorLocation (drawn_point s)) (after_draw s)
          else after_draw s)"
  using assms by (simp add: TrySetDestination_def TryGetValidDestination_ok)

lemma TrySetDestination_empty:
  assumes "GetController (ControllerOf e) (Some a) s = Some C" "SpawnPoints s = []"
  shows "TrySetDestination e a s = Inl CheckFailed"
  using assms by (simp add: TrySetDestination_def TryGetValidDestination_empty)

lemma Tick_Walkers_idle: "Walkers s = [] \<Longrightarrow> Tick_Walkers e s = Inr s"
  by (simp add: Tick_Walkers_def)

lemma Tick_Walkers_unresolvable:
  assumes "Walkers s \<noteq> []"
    and "GetController (ControllerOf e) (picked (CurrentIndexToCheck s) (Walkers s)) s = None"
  shows "Tick_Walkers e s = Inr
     (let Walker = picked (CurrentIndexToCheck s) (Walkers s);
          s3 = (emit (WalkersCheck Walker) (s\<lparr>CurrentIndexToCheck := CurrentIndexToCheck s + 1\<rparr>))
                 \<lparr>Walkers := swap_removed (CurrentIndexToCheck s) (Walkers s)\<rparr>
      in case Walker of None \<Rightarrow> s3 | Some a \<Rightarrow> Destroy a s3)"
proof -
  have "GetController f W (emit ev (s\<lparr>CurrentIndexToCheck := c\<rparr>)) = GetController f W s" for f W ev c
    by (rule GetController_same) simp
  with assms show ?thesis
    unfolding Tick_Walkers_def Let_def
    by (simp add: At_NextIndex RemoveAtSwap_NextIndex)
qed

lemma Tick_Walkers_moving:
  assumes "Walkers s \<noteq> []"
    and "GetController (ControllerOf e) (picked (CurrentIndexToCheck s) (Walkers s)) s = Some C"
    and "\<not> WalkerIsStuck C"
  shows "Tick_Walkers e s = Inr
     (emit (WalkersCheck (picked (CurrentIndexToCheck s) (Walkers s)))
        (s\<lparr>CurrentIndexToCheck := CurrentIndexToCheck s + 1\<rparr>))"
proof -
  have "GetController f W (emit ev (s\<lparr>CurrentIndexToCheck := c\<rparr>)) = GetController f W s" for f W ev c
    by (rule GetController_same) simp
  with assms show ?thesis
    unfolding Tick_Walkers_def Let_def
    by (simp add: At_NextIndex)
qed

lemma Tick_Walkers_stuck:
  assumes "Walkers s \<noteq> []"
    and "GetController (ControllerOf e) (picked (CurrentIndexToCheck s) (Walkers s)) s = Some C"
    and "WalkerIsStuck C"
    and "picked (CurrentIndexToCheck s) (Walkers s) = Some a"
  shows "Tick_Walkers e s =
     (if SpawnPoints s = [] then Inl CheckFailed
      else Inr
       (let s2 = emit (WalkersCheck (Some a)) (s\<lparr>CurrentIndexToCheck := CurrentIndexToCheck s + 1\<rparr>);
            s3 = (if float_ge (GetDistance e (LocationOf e a) (ActorLocation (drawn_point s)))
                         (MinimumWalkDistance s)
                  then MoveToLocation a (ActorLocation (drawn_point s)) (after_draw s2)
                  else after_draw s2)
        in s3\<lparr>WalkersBlackList := WalkersBlackList s @ [Some a],
              Walkers := swap_removed (CurrentIndexToCheck s) (Walkers s)\<rparr>))"
proof -
  let ?s2 = "emit (WalkersCheck (Some a)) (s\<lparr>CurrentIndexToCheck := CurrentIndexToCheck s + 1\<rparr>)"
  have same: "GetController f W ?s2 = GetController f W s" for f W
    by (rule GetController_same) simp
  have g: "GetController (ControllerOf e) (Some a) ?s2 = Some C"
    using assms(2,4) by (simp add: same)
  have dp: "drawn_point ?s2 = drawn_point s" by (simp add: drawn_point_def)
  show ?thesis
  proof (cases "SpawnPoints s = []")
    case True
    then have "TrySetDestination e a ?s2 = Inl CheckFailed"
      by (intro TrySetDestination_empty [OF g]) simp
    with assms True show ?thesis
      unfolding Tick_Walkers_def Let_def
      by (simp add: At_NextIndex same)
  next
    case False
    then have sp: "SpawnPoints ?s2 \<noteq> []" by simp
    note t = TrySetDestination_eq [OF g sp, unfolded dp]
    from assms False show ?thesis
      unfolding Tick_Walkers_def Let_def
      by (cases "float_ge (GetDistance e (LocationOf e a) (ActorLocation (drawn_point s)))
                         (MinimumWalkDistance s)")
        (simp_all add: At_NextIndex same t RemoveAtSwap_NextIndex)
  qed
qed

lemma Tick_Spawn_elim [consumes 1, case_names skip attempt]:
  assumes "Tick_Spawn e s = Inr s'"
  obtains "\<not> (bSpawnWalkers s \<and> int (length (Walkers s)) < NumberOfWalkers s)" "s' = s"
  | ok where "bSpawnWalkers s" "int (length (Walkers s)) < NumberOfWalkers s" "SpawnPoints s \<noteq> []"
      "TryToSpawnWalkerAt e (drawn_point s) (after_draw s) = Inr (ok, s')"
proof (cases "bSpawnWalkers s \<and> int (length (Walkers s)) < NumberOfWalkers s")
  case False
  with assms have "s' = s" by (simp add: Tick_Spawn_eq)
  with False that(1) show ?thesis by blast
next
  case True
  with assms have sp: "SpawnPoints s \<noteq> []" by (auto simp: Tick_Spawn_eq)
  with assms True obtain ok where
    "TryToSpawnWalkerAt e (drawn_point s) (after_draw s) = Inr (ok, s')"
    by (auto simp: Tick_Spawn_eq split: sum.splits)
  with True sp that(2) show ?thesis by blast
qed

lemma Tick_BlackList_elim [consumes 1, case_names idle kept removed]:
  assumes "Tick_BlackList e s = Inr s'"
  obtains "WalkersBlackList s = []" "s' = s"
  | C where "WalkersBlackList s \<noteq> []"
      "GetController (ControllerOf e) (picked (CurrentIndexToCheck s) (WalkersBlackList s)) s = Some C"
      "\<not> WalkerIsStuck C"
      "s' = emit (BlackListCheck (picked (CurrentIndexToCheck s) (WalkersBlackList s)))
              (s\<lparr>CurrentIndexToCheck := CurrentIndexToCheck s + 1\<rparr>)"
  | "WalkersBlackList s \<noteq> []"
      "case GetController (ControllerOf e) (picked (CurrentIndexToCheck s) (WalkersBlackList s)) s of
         None \<Rightarrow> True | Some C \<Rightarrow> WalkerIsStuck C"
      "s' = (let Walker = picked (CurrentIndexToCheck s) (WalkersBlackList s);
                 s3 = (emit (BlackListCheck Walker) (s\<lparr>CurrentIndexToCheck := CurrentIndexToCheck s + 1\<rparr>))
                        \<lparr>WalkersBlackList := swap_removed (CurrentIndexToCheck s) (WalkersBlackList s)\<rparr>
             in case Walker of None \<Rightarrow> s3 | Some a \<Rightarrow> Destroy a s3)"
proof (cases "WalkersBlackList s = []")
  case True
  with assms have "s' = s" by (simp add: Tick_BlackList_eq)
  with True that(1) show ?thesis by blast
next
  case ne: False
  let ?g = "GetController (ControllerOf e) (picked (CurrentIndexToCheck s) (WalkersBlackList s)) s"
  show ?thesis
  proof (cases "case ?g of None \<Rightarrow> True | Some C \<Rightarrow> WalkerIsStuck C")
    case True
    with assms ne have "s' = (let Walker = picked (CurrentIndexToCheck s) (WalkersBlackList s);
                 s3 = (emit (BlackListCheck Walker) (s\<lparr>CurrentIndexToCheck := CurrentIndexToCheck s + 1\<rparr>))
                        \<lparr>WalkersBlackList := swap_removed (CurrentIndexToCheck s) (WalkersBlackList s)\<rparr>
             in case Walker of None \<Rightarrow> s3 | Some a \<Rightarrow> Destroy a s3)"
      by (simp add: Tick_BlackList_eq Let_def)
    with ne True that(3) show ?thesis by blast
  next
    case False
    then obtain C where C: "?g = Some C" "\<not> WalkerIsStuck C"
      by (cases ?g) auto
    with assms ne have "s' = emit (BlackListCheck (picked (CurrentIndexToCheck s) (WalkersBlackList s)))
              (s\<lparr>CurrentIndexToCheck := CurrentIndexToCheck s + 1\<rparr>)"
      by (simp add: Tick_BlackList_eq Let_def)
    with ne C that(2) show ?thesis by blast
  qed
qed

lemma Tick_Walkers_elim [consumes 1, case_names idle unresolvable moving stuck]:
  assumes "Tick_Walkers e s = Inr s'"
  obtains "Walkers s = []" "s' = s"
  | "Walkers s \<noteq> []"
      "GetController (ControllerOf e) (picked (CurrentIndexToCheck s) (Walkers s)) s = None"
      "s' = (let Walker = picked (CurrentIndexToCheck s) (Walkers s);
                 s3 = (emit (WalkersCheck Walker) (s\<lparr>CurrentIndexToCheck := CurrentIndexToCheck s + 1\<rparr>))
                        \<lparr>Walkers := swap_removed (CurrentIndexToCheck s) (Walkers s)\<rparr>
             in case Walker of None \<Rightarrow> s3 | Some a \<Rightarrow> Destroy a s3)"
  | C where "Walkers s \<noteq> []"
      "GetController (ControllerOf e) (picked (CurrentIndexToCheck s) (Walkers s)) s = Some C"
      "\<not> WalkerIsStuck C"
      "s' = emit (WalkersCheck (picked (CurrentIndexToCheck s) (Walkers s)))
              (s\<lparr>CurrentIndexToCheck := CurrentIndexToCheck s + 1\<rparr>)"
  | C a where "Walkers s \<noteq> []"
      "GetController (ControllerOf e) (picked (CurrentIndexToCheck s) (Walkers s)) s = Some C"
      "WalkerIsStuck C" "picked (CurrentIndexToCheck s) (Walkers s) = Some a" "a \<notin> PendingKill s"
      "SpawnPoints s \<noteq> []"
      "s' = (let s2 = emit (WalkersCheck (Some a)) (s\<lparr>CurrentIndexToCheck := CurrentIndexToCheck s + 1\<rparr>);
                 s3 = (if float_ge (GetDistance e (LocationOf e a) (ActorLocation (drawn_point s)))
                         (MinimumWalkDistance s)
                       then MoveToLocation a (ActorLocation (drawn_point s)) (after_draw s2)
                       else after_draw s2)
             in s3\<lparr>WalkersBlackList := WalkersBlackList s @ [Some a],
                   Walkers := swap_removed (CurrentIndexToCheck s) (Walkers s)\<rparr>)"
proof (cases "Walkers s = []")
  case True
  with assms have "s' = s" by (simp add: Tick_Walkers_idle)
  with True that(1) show ?thesis by blast
next
  case ne: False
  show ?thesis
  proof (cases "GetController (ControllerOf e) (picked (CurrentIndexToCheck s) (Walkers s)) s")
    case None
    with assms ne have "s' = (let Walker = picked (CurrentIndexToCheck s) (Walkers s);
                 s3 = (emit (WalkersCheck Walker) (s\<lparr>CurrentIndexToCheck := CurrentIndexToCheck s + 1\<rparr>))
                        \<lparr>Walkers := swap_removed (CurrentIndexToCheck s) (Walkers s)\<rparr>
             in case Walker of None \<Rightarrow> s3 | Some a \<Rightarrow> Destroy a s3)"
      by (simp add: Tick_Walkers_unresolvable)
    with ne None that(2) show ?thesis by blast
  next
    case (Some C)
    show ?thesis
    proof (cases "WalkerIsStuck C")
      case False
      with assms ne Some have "s' = emit (WalkersCheck (picked (CurrentIndexToCheck s) (Walkers s)))
              (s\<lparr>CurrentIndexToCheck := CurrentIndexToCheck s + 1\<rparr>)"
        by (simp add: Tick_Walkers_moving)
      with ne Some False that(3) show ?thesis by blast
    next
      case True
      from GetController_Some [OF Some] obtain a where
        a: "picked (CurrentIndexToCheck s) (Walkers s) = Some a" "a \<notin> PendingKill s" by auto
      note eq = Tick_Walkers_stuck [OF ne Some True a(1)]
      from assms eq have sp: "SpawnPoints s \<noteq> []" by (auto split: if_splits)
      with assms eq have "s' = (let s2 = emit (WalkersCheck (Some a)) (s\<lparr>CurrentIndexToCheck := CurrentIndexToCheck s + 1\<rparr>);
                 s3 = (if float_ge (GetDistance e (LocationOf e a) (ActorLocation (drawn_point s)))
                         (MinimumWalkDistance s)
                       then MoveToLocation a (ActorLocation (drawn_point s)) (after_draw s2)
                       else after_draw s2)
             in s3\<lparr>WalkersBlackList := WalkersBlackList s @ [Some a],
                   Walkers := swap_removed (CurrentIndexToCheck s) (Walkers s)\<rparr>)"
        by simp
      with ne Some True a sp that(4) show ?thesis by blast
    qed
  qed
qed

subsection \<open>The bookkeeping invariant\<close>

lemma consistent_frame:
  assumes "consistent s" "Walkers s' = Walkers s" "WalkersBlackList s' = WalkersBlackList s"
    "PendingKill s' = PendingKill s" "NumActors s' = NumActors s" "SpawnPoints s' = SpawnPoints s"
  shows "consistent s'"
  using assms by (simp add: consistent_def managed_def)

lemma consistent_picked_Walkers:
  assumes "consistent s" "Walkers s \<noteq> []"
  shows "\<exists>a. picked c (Walkers s) = Some a \<and> a \<notin> PendingKill s \<and>
              Some a \<notin> set (WalkersBlackList s)"
proof -
  from assms(2) have in_set: "picked c (Walkers s) \<in> set (Walkers s)" by (rule picked_in_set)
  with assms(1) obtain a where a: "picked c (Walkers s) = Some a"
    by (cases "picked c (Walkers s)") (auto simp: consistent_def managed_def)
  with in_set assms(1) have "a \<notin> PendingKill s" "Some a \<notin> set (WalkersBlackList s)"
    by (auto simp: consistent_def managed_def actors_def)
  with a show ?thesis by blast
qed

lemma consistent_picked_BlackList:
  assumes "consistent s" "WalkersBlackList s \<noteq> []"
  shows "\<exists>a. picked c (WalkersBlackList s) = Some a \<and> a \<notin> PendingKill s \<and>
              Some a \<notin> set (Walkers s)"
proof -
  from assms(2) have in_set: "picked c (WalkersBlackList s) \<in> set (WalkersBlackList s)"
    by (rule picked_in_set)
  with assms(1) obtain a where a: "picked c (WalkersBlackList s) = Some a"
    by (cases "picked c (WalkersBlackList s)") (auto simp: consistent_def managed_def)
  with in_set assms(1) have "a \<notin> PendingKill s" "Some a \<notin> set (Walkers s)"
    by (auto simp: consistent_def managed_def actors_def)
  with a show ?thesis by blast
qed

lemma consistent_destroy_active:
  assumes c: "consistent s" and ne: "Walkers s \<noteq> []"
    and a: "picked c (Walkers s) = Some a"
    and eqs: "Walkers s' = swap_removed c (Walkers s)" "WalkersBlackList s' = WalkersBlackList s"
      "PendingKill s' = insert a (PendingKill s)" "NumActors s' = NumActors s"
      "SpawnPoints s' = SpawnPoints s"
  shows "consistent s'"
proof -
  from c have d: "distinct (Walkers s)" "distinct (WalkersBlackList s)"
      "set (Walkers s) \<inter> set (WalkersBlackList s) = {}"
    and nn: "None \<notin> set (Walkers s)" "None \<notin> set (WalkersBlackList s)"
    and dj: "actors (managed s) \<inter> PendingKill s = {}"
    and un: "actors (managed s) \<union> PendingKill s = {..<NumActors s}"
    and sp: "managed s \<noteq> [] \<longrightarrow> SpawnPoints s \<noteq> []"
    by (auto simp: consistent_def managed_def)
  note sr = swap_removed_distinct [OF d(1) ne, of c]
  from a ne have here: "Some a \<in> set (Walkers s)" by (metis picked_in_set)
  with d have nb: "Some a \<notin> set (WalkersBlackList s)" by auto
  have act: "actors (managed s') = actors (managed s) - {a}"
    using sr(2) a nb by (auto simp: managed_def actors_def eqs)
  from here have ain: "a \<in> actors (managed s)" by (simp add: managed_def actors_def)
  have "distinct (managed s')" using sr d by (auto simp: managed_def eqs)
  moreover have "None \<notin> set (managed s')" using sr(2) nn by (auto simp: managed_def eqs)
  moreover have "actors (managed s') \<inter> PendingKill s' = {}" using act dj by (auto simp: eqs)
  moreover have "actors (managed s') \<union> PendingKill s' = {..<NumActors s'}"
    using act un ain by (auto simp: eqs)
  moreover have "managed s' \<noteq> [] \<longrightarrow> SpawnPoints s' \<noteq> []"
    using sp ne by (simp add: managed_def eqs)
  ultimately show ?thesis by (simp add: consistent_def)
qed

lemma consistent_destroy_blacklisted:
  assumes c: "consistent s" and ne: "WalkersBlackList s \<noteq> []"
    and a: "picked c (WalkersBlackList s) = Some a"
    and eqs: "WalkersBlackList s' = swap_removed c (WalkersBlackList s)" "Walkers s' = Walkers s"
      "PendingKill s' = insert a (PendingKill s)" "NumActors s' = NumActors s"
      "SpawnPoints s' = SpawnPoints s"
  shows "consistent s'"
proof -
  from c have d: "distinct (Walkers s)" "distinct (WalkersBlackList s)"
      "set (Walkers s) \<inter> set (WalkersBlackList s) = {}"
    and nn: "None \<notin> set (Walkers s)" "None \<notin> set (WalkersBlackList s)"
    and dj: "actors (managed s) \<inter> PendingKill s = {}"
    and un: "actors (managed s) \<union> PendingKill s = {..<NumActors s}"
    and sp: "managed s \<noteq> [] \<longrightarrow> SpawnPoints s \<noteq> []"
    by (auto simp: consistent_def managed_def)
  note sr = swap_removed_distinct [OF d(2) ne, of c]
  from a ne have here: "Some a \<in> set (WalkersBlackList s)" by (metis picked_in_set)
  with d have nb: "Some a \<notin> set (Walkers s)" by auto
  have act: "actors (managed s') = actors (managed s) - {a}"
    using sr(2) a nb by (auto simp: managed_def actors_def eqs)
  from here have ain: "a \<in> actors (managed s)" by (simp add: managed_def actors_def)
  have "distinct (managed s')" using sr d by (auto simp: managed_def eqs)
  moreover have "None \<notin> set (managed s')" using sr(2) nn by (auto simp: managed_def eqs)
  moreover have "actors (managed s') \<inter> PendingKill s' = {}" using act dj by (auto simp: eqs)
  moreover have "actors (managed s') \<union> PendingKill s' = {..<NumActors s'}"
    using act un ain by (auto simp: eqs)
  moreover have "managed s' \<noteq> [] \<longrightarrow> SpawnPoints s' \<noteq> []"
    using sp ne by (simp add: managed_def eqs)
  ultimately show ?thesis by (simp add: consistent_def)
qed

lemma consistent_quarantine:
  assumes c: "consistent s" and ne: "Walkers s \<noteq> []"
    and a: "picked c (Walkers s) = Some a"
    and eqs: "Walkers s' = swap_removed c (Walkers s)"
      "WalkersBlackList s' = WalkersBlackList s @ [Some a]"
      "PendingKill s' = PendingKill s" "NumActors s' = NumActors s"
      "SpawnPoints s' = SpawnPoints s"
  shows "consistent s'"
proof -
  from c have d: "distinct (Walkers s)" "distinct (WalkersBlackList s)"
      "set (Walkers s) \<inter> set (WalkersBlackList s) = {}"
    and nn: "None \<notin> set (Walkers s)" "None \<notin> set (WalkersBlackList s)"
    and dj: "actors (managed s) \<inter> PendingKill s = {}"
    and un: "actors (managed s) \<union> PendingKill s = {..<NumActors s}"
    and sp: "managed s \<noteq> [] \<longrightarrow> SpawnPoints s \<noteq> []"
    by (auto simp: consistent_def managed_def)
  note sr = swap_removed_distinct [OF d(1) ne, of c]
  from a ne have here: "Some a \<in> set (Walkers s)" by (metis picked_in_set)
  with d have nb: "Some a \<notin> set (WalkersBlackList s)" by auto
  have act: "actors (managed s') = actors (managed s)"
    using sr(2) a here by (auto simp: managed_def actors_def eqs)
  have "distinct (managed s')" using sr d nb a by (auto simp: managed_def eqs)
  moreover have "None \<notin> set (managed s')" using sr(2) nn by (auto simp: managed_def eqs)
  moreover have "actors (managed s') \<inter> PendingKill s' = {}" using act dj by (auto simp: eqs)
  moreover have "actors (managed s') \<union> PendingKill s' = {..<NumActors s'}"
    using act un by (auto simp: eqs)
  moreover have "managed s' \<noteq> [] \<longrightarrow> SpawnPoints s' \<noteq> []"
    using sp ne by (simp add: managed_def eqs)
  ultimately show ?thesis by (simp add: consistent_def)
qed

lemma TryToSpawnWalkerAt_consistent:
  assumes run: "TryToSpawnWalkerAt e sp s = Inr (ok, s')" and c: "consistent s"
  shows "consistent s'"
proof -
  note eff = TryToSpawnWalkerAt_effect [OF run]
  let ?n = "NumActors s"
  from c have d: "distinct (managed s)" and nn: "None \<notin> set (managed s)"
    and dj: "actors (managed s) \<inter> PendingKill s = {}"
    and un: "actors (managed s) \<union> PendingKill s = {..<?n}"
    by (simp_all add: consistent_def)
  from un have fresh: "?n \<notin> actors (managed s)" by auto
  show ?thesis
  proof (cases ok)
    case True
    with eff have m: "set (managed s') = insert (Some ?n) (set (managed s))"
      and a: "actors (managed s') = insert ?n (actors (managed s))"
      and d': "distinct (managed s') \<longleftrightarrow> distinct (managed s) \<and> Some ?n \<notin> set (managed s)"
      and rest: "NumActors s' = Suc ?n" "PendingKill s' = PendingKill s" "?n \<notin> PendingKill s"
        "SpawnPoints s' \<noteq> []"
      by (auto simp: managed_def)
    from fresh have "Some ?n \<notin> set (managed s)" by (simp add: actors_iff)
    with d d' have "distinct (managed s')" by simp
    moreover from m nn have "None \<notin> set (managed s')" by simp
    moreover from a rest dj have "actors (managed s') \<inter> PendingKill s' = {}" by auto
    moreover from a rest un have "actors (managed s') \<union> PendingKill s' = {..<NumActors s'}"
      by (auto simp: lessThan_Suc)
    ultimately show ?thesis using rest by (simp add: consistent_def)
  next
    case False
    with eff have m: "managed s' = managed s" and sp: "SpawnPoints s' \<noteq> []"
      and alt: "NumActors s' = ?n \<and> PendingKill s' = PendingKill s \<or>
                NumActors s' = Suc ?n \<and> PendingKill s' = insert ?n (PendingKill s)"
      by (auto simp: managed_def)
    from alt show ?thesis
    proof
      assume "NumActors s' = ?n \<and> PendingKill s' = PendingKill s"
      with c m sp show ?thesis by (simp add: consistent_def)
    next
      assume *: "NumActors s' = Suc ?n \<and> PendingKill s' = insert ?n (PendingKill s)"
      with dj fresh m have "actors (managed s') \<inter> PendingKill s' = {}" by auto
      moreover from * un m have "actors (managed s') \<union> PendingKill s' = {..<NumActors s'}"
        by (auto simp: lessThan_Suc)
      ultimately show ?thesis using d nn m sp by (simp add: consistent_def)
    qed
  qed
qed

lemma Tick_Spawn_consistent:
  assumes "Tick_Spawn e s = Inr s'" "consistent s"
  shows "consistent s'"
  using assms(1)
proof (cases rule: Tick_Spawn_elim)
  case skip
  with assms(2) show ?thesis by simp
next
  case (attempt ok)
  have "consistent (after_draw s)" by (rule consistent_frame [OF assms(2)]) simp_all
  with attempt(4) show ?thesis by (rule TryToSpawnWalkerAt_consistent)
qed

lemma Tick_BlackList_consistent:
  assumes "Tick_BlackList e s = Inr s'" "consistent s"
  shows "consistent s'"
  using assms(1)
proof (cases rule: Tick_BlackList_elim)
  case idle
  with assms(2) show ?thesis by simp
next
  case (kept C)
  show ?thesis by (rule consistent_frame [OF assms(2)]) (simp_all add: kept(4))
next
  case removed
  from consistent_picked_BlackList [OF assms(2) removed(1)] obtain a where
    a: "picked (CurrentIndexToCheck s) (WalkersBlackList s) = Some a" by blast
  show ?thesis
    by (rule consistent_destroy_blacklisted [OF assms(2) removed(1) a]) (simp_all add: removed(3) a)
qed

lemma Tick_Walkers_consistent:
  assumes "Tick_Walkers e s = Inr s'" "consistent s"
  shows "consistent s'"
  using assms(1)
proof (cases rule: Tick_Walkers_elim)
  case idle
  with assms(2) show ?thesis by simp
next
  case unresolvable
  from consistent_picked_Walkers [OF assms(2) unresolvable(1)] obtain a where
    a: "picked (CurrentIndexToCheck s) (Walkers s) = Some a" by blast
  show ?thesis
    by (rule consistent_destroy_active [OF assms(2) unresolvable(1) a])
      (simp_all add: unresolvable(3) a)
next
  case (moving C)
  show ?thesis by (rule consistent_frame [OF assms(2)]) (simp_all add: moving(4))
next
  case (stuck C a)
  show ?thesis
    by (rule consistent_quarantine [OF assms(2) stuck(1) stuck(4)])
      (simp_all add: stuck(7) Let_def)
qed

lemma Tick_consistent:
  assumes "Tick e s = Inr s'" "consistent s"
  shows "consistent s'"
proof -
  from assms(1) obtain s1 s2 where
    "Tick_Spawn e s = Inr s1" "Tick_BlackList e s1 = Inr s2" "Tick_Walkers e s2 = Inr s'"
    by (auto simp: Tick_def split: sum.splits)
  with assms(2) show ?thesis
    by (blast intro: Tick_Spawn_consistent Tick_BlackList_consistent Tick_Walkers_consistent)
qed

lemma SetNumberOfWalkers_consistent: "consistent s \<Longrightarrow> consistent (SetNumberOfWalkers Count s)"
  by (simp add: SetNumberOfWalkers_def consistent_def managed_def)

lemma BeginPlay_loop_consistent:
  "BeginPlay_loop lv pts is n s = Inr (n', s') \<Longrightarrow> consistent s \<Longrightarrow> consistent s'"
proof (induction "is" arbitrary: n s)
  case Nil
  then show ?case by simp
next
  case (Cons i rest)
  from Cons.prems(1) obtain sp ok s1 where
    run: "TryToSpawnWalkerAt (AnswersAt lv i) sp s = Inr (ok, s1)"
    and loop: "BeginPlay_loop lv pts rest (if ok then Suc n else n) s1 = Inr (n', s')"
    by (auto split: if_splits sum.splits)
  from run Cons.prems(2) have "consistent s1" by (rule TryToSpawnWalkerAt_consistent)
  with loop show ?case by (rule Cons.IH)
qed

lemma BeginPlay_consistent:
  assumes "constructed s" "BeginPlay lv s = Inr s'"
  shows "consistent s'"
proof -
  define s4 where "s4 = (let s1 = s\<lparr>NumberOfWalkers := max 0 (NumberOfWalkers s)\<rparr>;
          s2 = s1\<lparr>RandomStream :=
                    (if \<not> bUseFixedSeed s1 then \<lparr>Draws = NewSeedDraws lv, Consumed = 0\<rparr>
                     else \<lparr>Draws = SeedDraws lv (Seed s1), Consumed = 0\<rparr>)\<rparr>;
          s3 = s2\<lparr>SpawnPoints := SpawnPoints s2 @ filter IsWalkerSpawnPoint (LevelSpawnPoints lv)\<rparr>
      in if length (SpawnPoints s3) < 2 then s3\<lparr>bSpawnWalkers := False\<rparr> else s3)"
  from assms(1) have c4: "consistent s4"
    by (simp add: s4_def Let_def constructed_def consistent_def managed_def)
  from assms(2) have "s' = s4 \<or>
    (\<exists>n. BeginPlay_loop lv (LevelSpawnPoints lv) [0..<nat (NumberOfWalkers s4)] 0 s4 = Inr (n, s'))"
    unfolding BeginPlay_def s4_def Let_def by (auto split: if_splits sum.splits)
  with c4 show ?thesis by (auto dest: BeginPlay_loop_consistent)
qed

lemma step_consistent: "step s s' \<Longrightarrow> consistent s \<Longrightarrow> consistent s'"
  by (induction rule: step.induct) (auto intro: Tick_consistent SetNumberOfWalkers_consistent)

lemma reachable_consistent: "reachable s \<Longrightarrow> consistent s"
  by (induction rule: reachable.induct) (auto intro: BeginPlay_consistent step_consistent)

subsection \<open>Errors of a tick\<close>

lemma TryToSpawnWalkerAt_error:
  "TryToSpawnWalkerAt e sp s = Inl err \<Longrightarrow> err = CheckFailed \<and> SpawnPoints s = []"
  using TryToSpawnWalkerAt_total [of s e sp] TryToSpawnWalkerAt_empty [of s e sp]
  by (cases "SpawnPoints s = []") auto

lemma Tick_Spawn_error:
  "Tick_Spawn e s = Inl err \<Longrightarrow> err = CheckFailed \<and> SpawnPoints s = []"
  by (auto simp: Tick_Spawn_eq split: if_splits sum.splits dest!: TryToSpawnWalkerAt_error)

lemma Tick_Walkers_error:
  assumes "Tick_Walkers e s = Inl err"
  shows "err = CheckFailed \<and> SpawnPoints s = []"
proof (cases "Walkers s = []")
  case True
  with assms show ?thesis by (simp add: Tick_Walkers_idle)
next
  case ne: False
  show ?thesis
  proof (cases "GetController (ControllerOf e) (picked (CurrentIndexToCheck s) (Walkers s)) s")
    case None
    with assms ne show ?thesis by (simp add: Tick_Walkers_unresolvable)
  next
    case (Some C)
    from GetController_Some [OF Some] obtain a where
      a: "picked (CurrentIndexToCheck s) (Walkers s) = Some a" by auto
    from assms ne Some a show ?thesis
      by (cases "WalkerIsStuck C")
        (auto simp: Tick_Walkers_moving Tick_Walkers_stuck split: if_splits)
  qed
qed

lemma Tick_Spawn_SpawnPoints: "Tick_Spawn e s = Inr s' \<Longrightarrow> SpawnPoints s' = SpawnPoints s"
  by (cases rule: Tick_Spawn_elim) (auto dest!: TryToSpawnWalkerAt_effect)

lemma Tick_BlackList_SpawnPoints: "Tick_BlackList e s = Inr s' \<Longrightarrow> SpawnPoints s' = SpawnPoints s"
  by (cases rule: Tick_BlackList_elim) (auto simp: Let_def split: option.splits)

lemma Tick_Walkers_SpawnPoints: "Tick_Walkers e s = Inr s' \<Longrightarrow> SpawnPoints s' = SpawnPoints s"
  by (cases rule: Tick_Walkers_elim) (auto simp: Let_def split: option.splits)

lemma Tick_error:
  assumes "Tick e s = Inl err"
  shows "err = CheckFailed \<and> SpawnPoints s = []"
proof (cases "Tick_Spawn e s")
  case (Inl x)
  with assms show ?thesis by (auto simp: Tick_def dest: Tick_Spawn_error)
next
  case (Inr s1)
  obtain s2 where s2: "Tick_BlackList e s1 = Inr s2" by (simp add: Tick_BlackList_eq)
  from assms Inr s2 have "Tick_Walkers e s2 = Inl err" by (simp add: Tick_def)
  then have "err = CheckFailed \<and> SpawnPoints s2 = []" by (rule Tick_Walkers_error)
  with Tick_Spawn_SpawnPoints [OF Inr] Tick_BlackList_SpawnPoints [OF s2] show ?thesis by simp
qed

lemma Tick_total: "SpawnPoints s \<noteq> [] \<Longrightarrow> \<exists>s'. Tick e s = Inr s'"
  by (cases "Tick e s") (auto dest: Tick_error)

subsection \<open>The trace of a tick\<close>

lemma Tick_Spawn_trace:
  assumes "Tick_Spawn e s = Inr s'"
  shows "\<exists>calls. list_all is_call calls \<and>
     Trace s' = Trace s @
       (if bSpawnWalkers s \<and> int (length (Walkers s)) < NumberOfWalkers s
        then SpawnAttempt (drawn_point s) # calls else [])"
  using assms
proof (cases rule: Tick_Spawn_elim)
  case skip
  then show ?thesis by (intro exI [of _ "[]"]) auto
next
  case (attempt ok)
  from TryToSpawnWalkerAt_trace [OF attempt(4)] attempt(1,2) show ?thesis by auto
qed

lemma Tick_BlackList_trace:
  assumes "Tick_BlackList e s = Inr s'"
  shows "\<exists>calls. list_all is_call calls \<and>
     Trace s' = Trace s @
       (if WalkersBlackList s = [] then []
        else BlackListCheck (picked (CurrentIndexToCheck s) (WalkersBlackList s)) # calls)"
  using assms
proof (cases rule: Tick_BlackList_elim)
  case idle
  then show ?thesis by (intro exI [of _ "[]"]) simp
next
  case (kept C)
  then show ?thesis by (intro exI [of _ "[]"]) simp
next
  case removed
  show ?thesis
  proof (cases "picked (CurrentIndexToCheck s) (WalkersBlackList s)")
    case None
    with removed show ?thesis by (intro exI [of _ "[]"]) (simp add: Let_def)
  next
    case (Some a)
    with removed show ?thesis by (intro exI [of _ "[CallDestroy a]"]) (simp add: Let_def)
  qed
qed

lemma Tick_Walkers_trace:
  assumes "Tick_Walkers e s = Inr s'"
  shows "\<exists>calls. list_all is_call calls \<and>
     Trace s' = Trace s @
       (if Walkers s = [] then []
        else WalkersCheck (picked (CurrentIndexToCheck s) (Walkers s)) # calls)"
  using assms
proof (cases rule: Tick_Walkers_elim)
  case idle
  then show ?thesis by (intro exI [of _ "[]"]) simp
next
  case unresolvable
  show ?thesis
  proof (cases "picked (CurrentIndexToCheck s) (Walkers s)")
    case None
    with unresolvable show ?thesis by (intro exI [of _ "[]"]) (simp add: Let_def)
  next
    case (Some a)
    with unresolvable show ?thesis by (intro exI [of _ "[CallDestroy a]"]) (simp add: Let_def)
  qed
next
  case (moving C)
  then show ?thesis by (intro exI [of _ "[]"]) simp
next
  case (stuck C a)
  show ?thesis
  proof (cases "float_ge (GetDistance e (LocationOf e a) (ActorLocation (drawn_point s)))
                         (MinimumWalkDistance s)")
    case True
    with stuck show ?thesis
      by (intro exI [of _ "[CallMoveToLocation a (ActorLocation (drawn_point s))]"]) (simp add: Let_def)
  next
    case False
    with stuck show ?thesis by (intro exI [of _ "[]"]) (simp add: Let_def)
  qed
qed

lemma Tick_Spawn_BlackList: "Tick_Spawn e s = Inr s' \<Longrightarrow> WalkersBlackList s' = WalkersBlackList s"
  by (cases rule: Tick_Spawn_elim) (auto dest!: TryToSpawnWalkerAt_effect)

lemma Tick_BlackList_Walkers: "Tick_BlackList e s = Inr s' \<Longrightarrow> Walkers s' = Walkers s"
  by (cases rule: Tick_BlackList_elim) (auto simp: Let_def split: option.splits)

text \<open>The trace of a whole tick: the three blocks in the order of the source.\<close>

lemma Tick_trace:
  assumes "Tick e s = Inr s'"
  shows "\<exists>s1 tr.
     Tick_Spawn e s = Inr s1 \<and> Trace s' = Trace s @ tr \<and>
     phases tr =
       (if bSpawnWalkers s \<and> int (length (Walkers s)) < NumberOfWalkers s
        then [SpawnPhase] else []) @
       (if WalkersBlackList s = [] then [] else [BlackListPhase]) @
       (if Walkers s1 = [] then [] else [WalkersPhase]) \<and>
     spawn_attempts tr =
       (if bSpawnWalkers s \<and> int (length (Walkers s)) < NumberOfWalkers s
        then [drawn_point s] else [])"
proof -
  from assms obtain s1 s2 where
    r: "Tick_Spawn e s = Inr s1" "Tick_BlackList e s1 = Inr s2" "Tick_Walkers e s2 = Inr s'"
    by (auto simp: Tick_def split: sum.splits)
  from Tick_Spawn_trace [OF r(1)] obtain calls1 where
    1: "list_all is_call calls1" "Trace s1 = Trace s @
       (if bSpawnWalkers s \<and> int (length (Walkers s)) < NumberOfWalkers s
        then SpawnAttempt (drawn_point s) # calls1 else [])" by blast
  from Tick_BlackList_trace [OF r(2)] obtain calls2 where
    2: "list_all is_call calls2" "Trace s2 = Trace s1 @
       (if WalkersBlackList s1 = [] then []
        else BlackListCheck (picked (CurrentIndexToCheck s1) (WalkersBlackList s1)) # calls2)" by blast
  from Tick_Walkers_trace [OF r(3)] obtain calls3 where
    3: "list_all is_call calls3" "Trace s' = Trace s2 @
       (if Walkers s2 = [] then []
        else WalkersCheck (picked (CurrentIndexToCheck s2) (Walkers s2)) # calls3)" by blast
  note eqs = Tick_Spawn_BlackList [OF r(1)] Tick_BlackList_Walkers [OF r(2)]
  note none = calls_only [OF 1(1)] calls_only [OF 2(1)] calls_only [OF 3(1)]
  let ?tr = "(if bSpawnWalkers s \<and> int (length (Walkers s)) < NumberOfWalkers s
        then SpawnAttempt (drawn_point s) # calls1 else []) @
       (if WalkersBlackList s1 = [] then []
        else BlackListCheck (picked (CurrentIndexToCheck s1) (WalkersBlackList s1)) # calls2) @
       (if Walkers s2 = [] then []
        else WalkersCheck (picked (CurrentIndexToCheck s2) (Walkers s2)) # calls3)"
  have "Trace s' = Trace s @ ?tr" by (simp only: 1(2) 2(2) 3(2) append_assoc)
  moreover have "phases ?tr =
       (if bSpawnWalkers s \<and> int (length (Walkers s)) < NumberOfWalkers s
        then [SpawnPhase] else []) @
       (if WalkersBlackList s = [] then [] else [BlackListPhase]) @
       (if Walkers s1 = [] then [] else [WalkersPhase])"
    by (simp add: none eqs)
  moreover have "spawn_attempts ?tr =
       (if bSpawnWalkers s \<and> int (length (Walkers s)) < NumberOfWalkers s
        then [drawn_point s] else [])"
    by (simp add: none eqs)
  ultimately show ?thesis using r(1) by blast
qed

subsection \<open>The small level, evaluated\<close>

lemmas level2_defs = level2_def pointA_def pointB_def calm_def stalled_def no_controller_def

lemma exact_arithmetic [simp]:
  "exact_minus (vec ax ay az) (vec bx by bz) = vec (ax - bx) (ay - by) (az - bz)"
  "exact_Size (vec x y z) = Finite (sqrt (x * x + y * y + z * z))"
  by (simp_all add: exact_minus_def exact_Size_def vec_def)

lemma small_roots [simp]: "sqrt 100 = 10" "sqrt 81 = 9"
  by (rule real_sqrt_unique; simp)+

lemma vec_eq_iff [simp]: "vec x y z = vec x' y' z' \<longleftrightarrow> x = x' \<and> y = y' \<and> z = z'"
  by (simp add: vec_def)

lemmas run_defs = At_def RemoveAtSwap_def NextIndex_def RandRange_def
  GetRandomSpawnPoint_def TryGetValidDestination_def SpawnWalker_def WalkerIsValid_def
  GetController_def GetDistance_def TryToSpawnWalkerAt_def TrySetDestination_def
  Tick_Spawn_def Tick_BlackList_def Tick_Walkers_def Tick_def
  GetCurrentNumberOfWalkers_def SetNumberOfWalkers_def BeginPlay_def Let_def
  Destroy_def MoveToLocation_def emit_def

lemma BeginPlay_level2: "BeginPlay level2 spawner0 = Inr spawner1"
  by (simp add: run_defs level2_defs spawner0_def spawner1_def)

lemmas spawner_defs = spawner0_def spawner1_def spawner2_def spawner3_def spawner4_def
  unspawned0_def unspawned1_def level1_def level0_def

lemma Tick_spawner1: "Tick stalled spawner1 = Inr spawner2"
  by (simp add: run_defs level2_defs spawner_defs)

lemma Tick_spawner2: "Tick calm spawner2 = Inr spawner3"
  by (simp add: run_defs level2_defs spawner_defs)

lemma Tick_spawner3: "Tick stalled spawner3 = Inr spawner4"
  by (simp add: run_defs level2_defs spawner_defs)

lemma BeginPlay_level1: "BeginPlay level1 spawner0 = Inr unspawned1"
  by (simp add: run_defs level2_defs spawner_defs)

lemma BeginPlay_level0: "BeginPlay level0 spawner0 = Inr unspawned0"
  by (simp add: run_defs level2_defs spawner_defs)

lemma constructed_spawner0: "constructed spawner0"
  by (simp add: constructed_def spawner0_def)

lemma reachable_spawner1: "reachable spawner1"
  using constructed_spawner0 BeginPlay_level2 by (rule reachable_BeginPlay)

lemma reachable_spawner2: "reachable spawner2"
  using reachable_spawner1 step_Tick [OF Tick_spawner1] by (rule reachable_step)

lemma reachable_spawner3: "reachable spawner3"
  using reachable_spawner2 step_Tick [OF Tick_spawner2] by (rule reachable_step)

lemma reachable_spawner4: "reachable spawner4"
  using reachable_spawner3 step_Tick [OF Tick_spawner3] by (rule reachable_step)

lemma spawner1_fields [simp]:
  "bSpawnWalkers spawner1" "NumberOfWalkers spawner1 = 1" "MinimumWalkDistance spawner1 = Finite 5"
  "SpawnPoints spawner1 = [pointA, pointB]" "Walkers spawner1 = [Some 0]"
  "WalkersBlackList spawner1 = []" "CurrentIndexToCheck spawner1 = 0"
  "NumActors spawner1 = 1" "PendingKill spawner1 = {}"
  "RandomStream spawner1 = \<lparr>Draws = Suc, Consumed = 1\<rparr>"
  by (simp_all add: spawner1_def)

lemma spawner2_fields [simp]:
  "bSpawnWalkers spawner2" "NumberOfWalkers spawner2 = 1" "MinimumWalkDistance spawner2 = Finite 5"
  "SpawnPoints spawner2 = [pointA, pointB]" "Walkers spawner2 = []"
  "WalkersBlackList spawner2 = [Some 0]" "CurrentIndexToCheck spawner2 = 1"
  "NumActors spawner2 = 1" "PendingKill spawner2 = {}"
  "RandomStream spawner2 = \<lparr>Draws = Suc, Consumed = 2\<rparr>"
  by (simp_all add: spawner2_def spawner1_def)

lemma spawner3_fields [simp]:
  "bSpawnWalkers spawner3" "NumberOfWalkers spawner3 = 1" "MinimumWalkDistance spawner3 = Finite 5"
  "SpawnPoints spawner3 = [pointA, pointB]" "Walkers spawner3 = [Some 1]"
  "WalkersBlackList spawner3 = [Some 0]" "CurrentIndexToCheck spawner3 = 3"
  "NumActors spawner3 = 2" "PendingKill spawner3 = {}"
  "RandomStream spawner3 = \<lparr>Draws = Suc, Consumed = 4\<rparr>"
  by (simp_all add: spawner3_def spawner2_def spawner1_def)

lemma spawner4_fields [simp]:
  "bSpawnWalkers spawner4" "NumberOfWalkers spawner4 = 1" "MinimumWalkDistance spawner4 = Finite 5"
  "SpawnPoints spawner4 = [pointA, pointB]" "Walkers spawner4 = []"
  "WalkersBlackList spawner4 = [Some 1]" "CurrentIndexToCheck spawner4 = 5"
  "NumActors spawner4 = 2" "PendingKill spawner4 = {0}"
  "RandomStream spawner4 = \<lparr>Draws = Suc, Consumed = 5\<rparr>"
  by (simp_all add: spawner4_def spawner3_def spawner2_def spawner1_def)

lemma since_spawner [simp]:
  "since spawner1 spawner2 = [WalkersCheck (Some 0)]"
  "since spawner2 spawner3 =
     [SpawnAttempt pointB, CallSpawnWalker pointB (Some 1), CallSpawnDefaultController 1,
      CallMoveToLocation 1 (vec 0 0 0), BlackListCheck (Some 0), WalkersCheck (Some 1)]"
  "since spawner3 spawner4 =
     [BlackListCheck (Some 0), CallDestroy 0, WalkersCheck (Some 1),
      CallMoveToLocation 1 (vec 10 0 0)]"
  by (simp_all add: since_def spawner4_def spawner3_def spawner2_def)

subsection \<open>Quarantined or destroyed, for good\<close>

lemma Tick_Spawn_quarantine:
  assumes "Tick_Spawn e s = Inr s'"
  shows "actors (WalkersBlackList s) \<union> PendingKill s \<subseteq> actors (WalkersBlackList s') \<union> PendingKill s'"
  using assms
proof (cases rule: Tick_Spawn_elim)
  case skip
  then show ?thesis by simp
next
  case (attempt ok)
  from TryToSpawnWalkerAt_cases [OF attempt(4)] show ?thesis by auto
qed

lemma Tick_BlackList_quarantine:
  assumes "Tick_BlackList e s = Inr s'"
  shows "actors (WalkersBlackList s) \<union> PendingKill s \<subseteq> actors (WalkersBlackList s') \<union> PendingKill s'"
  using assms
proof (cases rule: Tick_BlackList_elim)
  case idle
  then show ?thesis by simp
next
  case (kept C)
  then show ?thesis by simp
next
  case removed
  from swap_removed_keeps [OF removed(1), of "CurrentIndexToCheck s"] removed(3)
  show ?thesis
    by (cases "picked (CurrentIndexToCheck s) (WalkersBlackList s)")
      (auto simp: Let_def actors_def)
qed

lemma Tick_Walkers_quarantine:
  assumes "Tick_Walkers e s = Inr s'"
  shows "actors (WalkersBlackList s) \<union> PendingKill s \<subseteq> actors (WalkersBlackList s') \<union> PendingKill s'"
  using assms
proof (cases rule: Tick_Walkers_elim)
  case idle
  then show ?thesis by simp
next
  case unresolvable
  then show ?thesis
    by (cases "picked (CurrentIndexToCheck s) (Walkers s)") (auto simp: Let_def)
next
  case (moving C)
  then show ?thesis by simp
next
  case (stuck C a)
  then show ?thesis by (auto simp: Let_def)
qed

lemma step_quarantine:
  assumes "step s s'"
  shows "actors (WalkersBlackList s) \<union> PendingKill s \<subseteq> actors (WalkersBlackList s') \<union> PendingKill s'"
  using assms
proof (cases rule: step.cases)
  case (step_Tick e)
  then obtain s1 s2 where
    "Tick_Spawn e s = Inr s1" "Tick_BlackList e s1 = Inr s2" "Tick_Walkers e s2 = Inr s'"
    by (auto simp: Tick_def split: sum.splits)
  from Tick_Spawn_quarantine [OF this(1)] Tick_BlackList_quarantine [OF this(2)]
    Tick_Walkers_quarantine [OF this(3)]
  show ?thesis by blast
next
  case (step_SetNumberOfWalkers Count)
  then show ?thesis by (simp add: SetNumberOfWalkers_def)
qed

lemma steps_quarantine:
  assumes "step\<^sup>*\<^sup>* s s'" "consistent s" "a \<in> actors (WalkersBlackList s) \<union> PendingKill s"
  shows "consistent s' \<and> a \<in> actors (WalkersBlackList s') \<union> PendingKill s'"
  using assms
proof (induction rule: rtranclp_induct)
  case base
  then show ?case by simp
next
  case (step y z)
  then have "consistent y" "a \<in> actors (WalkersBlackList y) \<union> PendingKill y" by simp_all
  with step.hyps(2) step_quarantine [OF step.hyps(2)] show ?case
    by (auto intro: step_consistent)
qed

lemma consistent_exclusive:
  assumes "consistent s"
  shows "set (Walkers s) \<inter> set (WalkersBlackList s) = {}"
    and "distinct (Walkers s)" and "distinct (WalkersBlackList s)"
    and "p \<in> set (Walkers s) \<union> set (WalkersBlackList s) \<Longrightarrow> \<exists>a<NumActors s. p = Some a"
    and "a < NumActors s \<Longrightarrow>
           Some a \<in> set (Walkers s) \<and> Some a \<notin> set (WalkersBlackList s) \<and> a \<notin> PendingKill s \<or>
           Some a \<notin> set (Walkers s) \<and> Some a \<in> set (WalkersBlackList s) \<and> a \<notin> PendingKill s \<or>
           Some a \<notin> set (Walkers s) \<and> Some a \<notin> set (WalkersBlackList s) \<and> a \<in> PendingKill s"
proof -
  from assms have d: "distinct (Walkers s)" "distinct (WalkersBlackList s)"
      "set (Walkers s) \<inter> set (WalkersBlackList s) = {}"
    and nn: "None \<notin> set (Walkers s)" "None \<notin> set (WalkersBlackList s)"
    and dj: "actors (managed s) \<inter> PendingKill s = {}"
    and un: "actors (managed s) \<union> PendingKill s = {..<NumActors s}"
    by (auto simp: consistent_def managed_def)
  from d show "set (Walkers s) \<inter> set (WalkersBlackList s) = {}"
    "distinct (Walkers s)" "distinct (WalkersBlackList s)" by simp_all
  show "\<exists>a<NumActors s. p = Some a" if "p \<in> set (Walkers s) \<union> set (WalkersBlackList s)"
  proof (cases p)
    case None
    with that nn show ?thesis by auto
  next
    case (Some a)
    with that have "a \<in> actors (managed s)" by (auto simp: actors_def managed_def)
    with un have "a < NumActors s" by auto
    with Some show ?thesis by simp
  qed
  show "Some a \<in> set (Walkers s) \<and> Some a \<notin> set (WalkersBlackList s) \<and> a \<notin> PendingKill s \<or>
        Some a \<notin> set (Walkers s) \<and> Some a \<in> set (WalkersBlackList s) \<and> a \<notin> PendingKill s \<or>
        Some a \<notin> set (Walkers s) \<and> Some a \<notin> set (WalkersBlackList s) \<and> a \<in> PendingKill s"
    if "a < NumActors s"
  proof -
    from that un have "a \<in> actors (managed s) \<union> PendingKill s" by simp
    with dj d(3) show ?thesis by (auto simp: actors_def managed_def)
  qed
qed

lemma steps_spawner2_spawner4: "step\<^sup>*\<^sup>* spawner2 spawner4"
  using step_Tick [OF Tick_spawner2] step_Tick [OF Tick_spawner3] by simp

lemma Tick_BlackList_spawner3: "Tick_BlackList stalled spawner3 = Inr spawner3_checked"
  by (simp add: run_defs level2_defs spawner_defs spawner3_checked_def)

lemma Tick_Walkers_spawner3_checked: "Tick_Walkers stalled spawner3_checked = Inr spawner4"
  by (simp add: run_defs level2_defs spawner_defs spawner3_checked_def)

lemma Tick_Walkers_spawner1: "Tick_Walkers stalled spawner1 = Inr spawner2"
  by (simp add: run_defs level2_defs spawner_defs)

lemma Tick_BlackList_spawner2:
  "Tick_BlackList calm spawner2 =
     Inr (spawner2\<lparr>CurrentIndexToCheck := 2, Trace := Trace spawner2 @ [BlackListCheck (Some 0)]\<rparr>)"
  by (simp add: run_defs level2_defs spawner_defs)

lemma TryToSpawnWalkerAt_spawner1:
  "TryToSpawnWalkerAt no_controller pointB spawner1 = Inr (False, spawner1_failed)"
  by (simp add: run_defs level2_defs spawner_defs spawner1_failed_def)

lemma Tick_unspawned1: "Tick calm (SetNumberOfWalkers 1 unspawned1) = Inr respawning1"
  by (simp add: run_defs level2_defs spawner_defs respawning1_def)

lemma Tick_unspawned0: "Tick calm (SetNumberOfWalkers 1 unspawned0) = Inl CheckFailed"
  by (simp add: run_defs level2_defs spawner_defs)


lemma spawner3_checked_fields [simp]:
  "SpawnPoints spawner3_checked = [pointA, pointB]" "Walkers spawner3_checked = [Some 1]"
  "WalkersBlackList spawner3_checked = []" "CurrentIndexToCheck spawner3_checked = 4"
  "NumActors spawner3_checked = 2" "PendingKill spawner3_checked = {0}"
  "RandomStream spawner3_checked = \<lparr>Draws = Suc, Consumed = 4\<rparr>"
  "MinimumWalkDistance spawner3_checked = Finite 5"
  by (simp_all add: spawner3_checked_def)

lemma spawner1_failed_fields [simp]:
  "Walkers spawner1_failed = [Some 0]" "WalkersBlackList spawner1_failed = []"
  "NumActors spawner1_failed = 2" "PendingKill spawner1_failed = {1}"
  by (simp_all add: spawner1_failed_def)

lemma since_more [simp]:
  "since spawner3 spawner3_checked = [BlackListCheck (Some 0), CallDestroy 0]"
  "since spawner3_checked spawner4 = [WalkersCheck (Some 1), CallMoveToLocation 1 (vec 10 0 0)]"
  "since spawner1 spawner1_failed =
     [SpawnAttempt pointB, CallSpawnWalker pointB (Some 1), CallSpawnDefaultController 1,
      CallDestroy 1]"
  "since (SetNumberOfWalkers 1 unspawned1) respawning1 = [SpawnAttempt pointA]"
  by (simp_all add: since_def spawner4_def spawner3_checked_def spawner1_failed_def
      respawning1_def unspawned1_def spawner0_def SetNumberOfWalkers_def)

lemma GetController_small_level [simp]:
  "GetController (ControllerOf stalled) (Some 0) spawner1 = Some (AWalkerAIController True)"
  "GetController (ControllerOf stalled) (Some 0) spawner3 = Some (AWalkerAIController True)"
  "GetController (ControllerOf stalled) (Some (Suc 0)) spawner3_checked =
     Some (AWalkerAIController True)"
  "GetController (ControllerOf calm) (Some 0) spawner2 = Some (AWalkerAIController False)"
  by (simp_all add: GetController_eq stalled_def calm_def)

lemma picked_singleton [simp]: "picked c [x] = x"
  by (simp add: picked_def)

lemma swap_removed_singleton [simp]: "swap_removed c [x] = []"
  by (simp add: swap_removed_def)

lemma NextIndex_bound: "xs \<noteq> [] \<Longrightarrow> 0 \<le> NextIndex c xs \<and> NextIndex c xs < int (length xs)"
  by (simp add: NextIndex_def)

lemma GetDistance_calm:
  "GetDistance calm (vec 10 0 0) (vec 0 0 0) = Finite 10"
  "GetDistance calm (vec 0 0 0) (vec 0 0 0) = Finite 0"
  by (simp_all add: GetDistance_def calm_def)

lemma TryGetValidDestination_spawner1:
  "TryGetValidDestination calm (vec 10 0 0) spawner1 =
     Inr (True, vec 0 0 0, spawner1\<lparr>RandomStream := \<lparr>Draws = Suc, Consumed = 2\<rparr>\<rparr>)"
  "TryGetValidDestination calm (vec 0 0 0) spawner1 =
     Inr (False, vec 0 0 0, spawner1\<lparr>RandomStream := \<lparr>Draws = Suc, Consumed = 2\<rparr>\<rparr>)"
  by (simp_all add: run_defs level2_defs spawner1_def)

section \<open>The claims\<close>

text \<open>
  C9. For every origin, a call of the destination selector on a non-empty registry takes
  exactly one value from the random stream, and changes nothing else; it returns the
  location of the spawn point that value selects, and reports it valid exactly when the
  distance from the origin to it is at least the minimum walk distance. The distance is
  the straight-line distance as the engine computes it in single precision: the absolute
  value of the size of the difference of the two locations; the comparison is the one of
  floats.
\<close>

theorem TryGetValidDestination_one_draw:
  assumes "SpawnPoints s \<noteq> []"
  shows "\<exists>Destination s'.
           TryGetValidDestination e Origin s =
             Inr (float_ge (GetDistance e Origin Destination) (MinimumWalkDistance s),
                  Destination, s') \<and>
           Destination = ActorLocation (SpawnPoints s !
             (Draws (RandomStream s) (Consumed (RandomStream s)) mod length (SpawnPoints s))) \<and>
           s' = s\<lparr>RandomStream := (RandomStream s)\<lparr>Consumed := Suc (Consumed (RandomStream s))\<rparr>\<rparr> \<and>
           GetDistance e Origin Destination =
             FMath_Abs (FVector_Size e (FVector_minus e Origin Destination))"
  using assms
  by (intro exI [of _ "ActorLocation (drawn_point s)"] exI [of _ "after_draw s"])
    (simp add: TryGetValidDestination_ok drawn_point_def after_draw_def GetDistance_def)

theorem TryGetValidDestination_one_draw_witness:
  "SpawnPoints spawner1 \<noteq> [] \<and>
   GetDistance calm (vec 10 0 0) (vec 0 0 0) = Finite 10 \<and>
   TryGetValidDestination calm (vec 10 0 0) spawner1 =
     Inr (True, vec 0 0 0, spawner1\<lparr>RandomStream := \<lparr>Draws = Suc, Consumed = 2\<rparr>\<rparr>) \<and>
   GetDistance calm (vec 0 0 0) (vec 0 0 0) = Finite 0 \<and>
   TryGetValidDestination calm (vec 0 0 0) spawner1 =
     Inr (False, vec 0 0 0, spawner1\<lparr>RandomStream := \<lparr>Draws = Suc, Consumed = 2\<rparr>\<rparr>)"
  using TryGetValidDestination_one_draw [of spawner1 calm "vec 10 0 0"]
    TryGetValidDestination_one_draw [of spawner1 calm "vec 0 0 0"]
  by (simp add: TryGetValidDestination_spawner1 GetDistance_calm)

text \<open>
  C10. No index computed during a tick is out of range. The round-robin index, taken on
  a non-empty array, is at least 0 and less than the size of the array, so that reading
  the array there succeeds; and a tick never stops at a range check, a null pointer or
  a division by zero, in any state and whatever the engine answers: the only error a tick
  can end in is the failed \<^verbatim>\<open>check\<close> of \<^verbatim>\<open>GetRandomSpawnPoint\<close>, which comes
  before the registry is indexed.
\<close>

theorem Tick_indices_in_range:
  "0 \<le> NextIndex c (x # xs) \<and> NextIndex c (x # xs) < int (length (x # xs)) \<and>
   At (x # xs) (NextIndex c (x # xs)) = Inr ((x # xs) ! nat (NextIndex c (x # xs))) \<and>
   GetRandomSpawnPoint s \<noteq> Inl RangeCheckFailed \<and>
   Tick e s \<noteq> Inl RangeCheckFailed \<and> Tick e s \<noteq> Inl NullDereference \<and>
   Tick e s \<noteq> Inl DivisionByZero"
proof -
  have "GetRandomSpawnPoint s \<noteq> Inl RangeCheckFailed"
    by (cases "SpawnPoints s = []") (simp_all add: GetRandomSpawnPoint_ok GetRandomSpawnPoint_empty)
  moreover have "Tick e s \<noteq> Inl err" if "err \<noteq> CheckFailed" for err
    using that Tick_error [of e s err] by blast
  moreover have "0 \<le> NextIndex c (x # xs) \<and> NextIndex c (x # xs) < int (length (x # xs))"
    by (rule NextIndex_bound) simp
  ultimately show ?thesis by (simp add: At_def)
qed

theorem Tick_indices_in_range_witness:
  "NextIndex 4 [Some 0, Some (1::nat), Some 2] = 2 \<and>
   At [Some 0, Some (1::nat), Some 2] (NextIndex 4 [Some 0, Some 1, Some 2]) = Inr (Some 2) \<and>
   NextIndex (- 1) [Some 0, Some (1::nat), Some 2] = 0 \<and>
   Tick stalled spawner3 = Inr spawner4"
  using Tick_indices_in_range [of 4 "Some 0" "[Some (1::nat), Some 2]" spawner3 stalled]
    Tick_indices_in_range [of "- 1" "Some 0" "[Some (1::nat), Some 2]" spawner3 stalled]
  by (simp add: NextIndex_def Tick_spawner3)

text \<open>
  C2, as the code has it. In a tick that completes, at most one spawn attempt, at most
  one check of the black list and at most one check of the active walkers are made, in
  this order: the spawn attempt, then the black list, then the active walkers. The
  trace only grows.
\<close>

theorem Tick_order:
  assumes "Tick e s = Inr s'"
  shows "Trace s' = Trace s @ since s s' \<and>
         subseq (phases (since s s')) [SpawnPhase, BlackListPhase, WalkersPhase]"
  using Tick_trace [OF assms] by (auto simp: since_def)

theorem Tick_order_witness:
  "Tick calm spawner2 = Inr spawner3 \<and>
   phases (since spawner2 spawner3) = [SpawnPhase, BlackListPhase, WalkersPhase] \<and>
   Tick stalled spawner1 = Inr spawner2 \<and> phases (since spawner1 spawner2) = [WalkersPhase]"
  using Tick_order [OF Tick_spawner2] Tick_order [OF Tick_spawner1]
  by (simp add: Tick_spawner1 Tick_spawner2)

text \<open>
  C2, as stated, fails: in the third tick of the small level both arrays are non-empty
  and no spawn is due; the black list is checked first (actor 0 is destroyed), the active
  walkers after it (actor 1 is quarantined), so the order spawn attempt, active walkers,
  black list is not the order of that tick.
\<close>

theorem Tick_order_counterexample:
  "Tick stalled spawner3 = Inr spawner4 \<and>
   phases (since spawner3 spawner4) = [BlackListPhase, WalkersPhase] \<and>
   \<not> subseq (phases (since spawner3 spawner4)) [SpawnPhase, WalkersPhase, BlackListPhase]"
  by (simp add: Tick_spawner3)

text \<open>
  C8. A tick on a non-empty registry completes. A tick that completes makes exactly one
  spawn attempt if spawning is enabled and the number of active walkers is less than the
  target, and none otherwise; the attempt is made at the spawn point the next value of
  the random stream selects among all points of the registry.
\<close>

theorem Tick_spawn_attempts:
  "(SpawnPoints s \<noteq> [] \<longrightarrow> (\<exists>s'. Tick e s = Inr s')) \<and>
   (\<forall>s'. Tick e s = Inr s' \<longrightarrow>
      spawn_attempts (since s s') =
        (if bSpawnWalkers s \<and> int (length (Walkers s)) < NumberOfWalkers s
         then [SpawnPoints s !
                (Draws (RandomStream s) (Consumed (RandomStream s)) mod length (SpawnPoints s))]
         else []))"
proof (intro conjI allI impI)
  assume "SpawnPoints s \<noteq> []"
  then show "\<exists>s'. Tick e s = Inr s'" by (rule Tick_total)
next
  fix s' assume "Tick e s = Inr s'"
  from Tick_trace [OF this]
  show "spawn_attempts (since s s') =
        (if bSpawnWalkers s \<and> int (length (Walkers s)) < NumberOfWalkers s
         then [SpawnPoints s !
                (Draws (RandomStream s) (Consumed (RandomStream s)) mod length (SpawnPoints s))]
         else [])"
    by (auto simp: since_def drawn_point_def)
qed

theorem Tick_spawn_attempts_witness:
  "SpawnPoints spawner2 \<noteq> [] \<and> Tick calm spawner2 = Inr spawner3 \<and>
   bSpawnWalkers spawner2 \<and> int (length (Walkers spawner2)) < NumberOfWalkers spawner2 \<and>
   spawn_attempts (since spawner2 spawner3) = [pointB] \<and>
   Tick stalled spawner3 = Inr spawner4 \<and>
   \<not> int (length (Walkers spawner3)) < NumberOfWalkers spawner3 \<and>
   spawn_attempts (since spawner3 spawner4) = []"
  using Tick_spawn_attempts [of spawner2 calm] Tick_spawn_attempts [of spawner3 stalled]
  by (simp add: Tick_spawner2 Tick_spawner3 pointA_def pointB_def)

text \<open>
  C3. In every state reachable by startup followed by any ticks and calls of
  \<^verbatim>\<open>SetNumberOfWalkers\<close>, whatever the engine answers, no pointer is in both the active
  walkers and the black list, neither array holds a pointer twice, every pointer they
  hold is an actor the spawner has spawned, and every actor the spawner has spawned is in
  exactly one of three states: active, black-listed, or destroyed (pending kill).
\<close>

theorem reachable_exclusive:
  assumes "reachable s"
  shows "set (Walkers s) \<inter> set (WalkersBlackList s) = {} \<and>
         distinct (Walkers s) \<and> distinct (WalkersBlackList s) \<and>
         (\<forall>p \<in> set (Walkers s) \<union> set (WalkersBlackList s). \<exists>a<NumActors s. p = Some a) \<and>
         (\<forall>a<NumActors s.
            Some a \<in> set (Walkers s) \<and> Some a \<notin> set (WalkersBlackList s) \<and> a \<notin> PendingKill s \<or>
            Some a \<notin> set (Walkers s) \<and> Some a \<in> set (WalkersBlackList s) \<and> a \<notin> PendingKill s \<or>
            Some a \<notin> set (Walkers s) \<and> Some a \<notin> set (WalkersBlackList s) \<and> a \<in> PendingKill s)"
  using consistent_exclusive [OF reachable_consistent [OF assms]] by blast

theorem reachable_exclusive_witness:
  "reachable spawner4 \<and> NumActors spawner4 = 2 \<and>
   set (Walkers spawner4) \<inter> set (WalkersBlackList spawner4) = {} \<and>
   Some 0 \<notin> set (Walkers spawner4) \<and> Some 0 \<notin> set (WalkersBlackList spawner4) \<and>
   0 \<in> PendingKill spawner4 \<and>
   Some 1 \<notin> set (Walkers spawner4) \<and> Some 1 \<in> set (WalkersBlackList spawner4) \<and>
   1 \<notin> PendingKill spawner4"
  using reachable_exclusive [OF reachable_spawner4] reachable_spawner4 by simp

text \<open>
  C4. Quarantine is one-way. If an actor is in the black list in a reachable state, then
  in every state any further ticks and calls of \<^verbatim>\<open>SetNumberOfWalkers\<close> lead to, it is
  not among the active walkers, and it is either still in the black list or destroyed.
\<close>

theorem quarantine_one_way:
  assumes "reachable s" "Some a \<in> set (WalkersBlackList s)" "step\<^sup>*\<^sup>* s s'"
  shows "Some a \<notin> set (Walkers s') \<and>
         (Some a \<in> set (WalkersBlackList s') \<or> a \<in> PendingKill s')"
proof -
  from assms(2) have "a \<in> actors (WalkersBlackList s) \<union> PendingKill s"
    by (simp add: actors_def)
  with steps_quarantine [OF assms(3) reachable_consistent [OF assms(1)]]
  have c: "consistent s'" and q: "a \<in> actors (WalkersBlackList s') \<union> PendingKill s'"
    by simp_all
  from c have d: "set (Walkers s') \<inter> set (WalkersBlackList s') = {}"
    and dj: "actors (managed s') \<inter> PendingKill s' = {}"
    by (auto simp: consistent_def managed_def)
  from q d dj show ?thesis by (auto simp: actors_def managed_def)
qed

theorem quarantine_one_way_witness:
  "reachable spawner2 \<and> Some 0 \<in> set (WalkersBlackList spawner2) \<and>
   step\<^sup>*\<^sup>* spawner2 spawner4 \<and>
   Some 0 \<notin> set (Walkers spawner3) \<and> Some 0 \<in> set (WalkersBlackList spawner3) \<and>
   Some 0 \<notin> set (Walkers spawner4) \<and> 0 \<in> PendingKill spawner4"
  using quarantine_one_way [OF reachable_spawner2 _ steps_spawner2_spawner4, of 0]
    reachable_spawner2 steps_spawner2_spawner4
  by simp

text \<open>
  C5. A spawn attempt that fails leaves the active walkers and the black list as they
  were, and every actor created during the attempt (the actors numbered from
  \<open>NumActors s\<close> up to \<open>NumActors s'\<close>) is pending kill afterwards; no other actor becomes
  pending kill. The attempt fails in one of four ways, which the trace tells apart: the
  destination is rejected, \<^verbatim>\<open>SpawnWalker\<close> yields no actor, it yields an invalid one, or
  the actor gets no controller; in the last case \<^verbatim>\<open>Destroy\<close> is called on the actor
  just created.
\<close>

theorem TryToSpawnWalkerAt_failure_unwinds:
  assumes "TryToSpawnWalkerAt e SpawnPoint s = Inr (False, s')"
  shows "Walkers s' = Walkers s \<and> WalkersBlackList s' = WalkersBlackList s \<and>
         {NumActors s..<NumActors s'} \<subseteq> PendingKill s' \<and>
         PendingKill s' \<subseteq> PendingKill s \<union> {NumActors s..<NumActors s'} \<and>
         (since s s' = [SpawnAttempt SpawnPoint] \<and> NumActors s' = NumActors s \<or>
          since s s' = [SpawnAttempt SpawnPoint, CallSpawnWalker SpawnPoint None] \<and>
            NumActors s' = NumActors s \<or>
          since s s' = [SpawnAttempt SpawnPoint, CallSpawnWalker SpawnPoint (Some (NumActors s))] \<and>
            NumActors s' = Suc (NumActors s) \<or>
          since s s' = [SpawnAttempt SpawnPoint, CallSpawnWalker SpawnPoint (Some (NumActors s)),
                        CallSpawnDefaultController (NumActors s), CallDestroy (NumActors s)] \<and>
            NumActors s' = Suc (NumActors s))"
proof -
  note c = TryToSpawnWalkerAt_cases [OF assms]
  from c have kept: "Walkers s' = Walkers s" "WalkersBlackList s' = WalkersBlackList s"
    by blast+
  from c consider
      (none) "NumActors s' = NumActors s" "PendingKill s' = PendingKill s"
        "Trace s' = Trace s @ [SpawnAttempt SpawnPoint] \<or>
         Trace s' = Trace s @ [SpawnAttempt SpawnPoint, CallSpawnWalker SpawnPoint None]"
    | (one) "NumActors s' = Suc (NumActors s)" "NumActors s \<in> PendingKill s'"
        "PendingKill s' \<subseteq> insert (NumActors s) (PendingKill s)"
        "Trace s' = Trace s @ [SpawnAttempt SpawnPoint, CallSpawnWalker SpawnPoint (Some (NumActors s))] \<or>
         Trace s' = Trace s @ [SpawnAttempt SpawnPoint, CallSpawnWalker SpawnPoint (Some (NumActors s)),
                               CallSpawnDefaultController (NumActors s), CallDestroy (NumActors s)]"
    by blast
  then show ?thesis
  proof cases
    case none
    from none(3) have "since s s' = [SpawnAttempt SpawnPoint] \<or>
        since s s' = [SpawnAttempt SpawnPoint, CallSpawnWalker SpawnPoint None]"
      by (auto simp: since_def)
    with none(1,2) kept show ?thesis by simp
  next
    case one
    have range: "{NumActors s..<Suc (NumActors s)} = {NumActors s}" by auto
    from one(4) have "since s s' = [SpawnAttempt SpawnPoint, CallSpawnWalker SpawnPoint (Some (NumActors s))] \<or>
        since s s' = [SpawnAttempt SpawnPoint, CallSpawnWalker SpawnPoint (Some (NumActors s)),
                      CallSpawnDefaultController (NumActors s), CallDestroy (NumActors s)]"
      by (auto simp: since_def)
    with one(1-3) kept range show ?thesis by auto
  qed
qed

theorem TryToSpawnWalkerAt_failure_unwinds_witness:
  "TryToSpawnWalkerAt no_controller pointB spawner1 = Inr (False, spawner1_failed) \<and>
   Walkers spawner1_failed = Walkers spawner1 \<and>
   WalkersBlackList spawner1_failed = WalkersBlackList spawner1 \<and>
   NumActors spawner1 = 1 \<and> NumActors spawner1_failed = 2 \<and> 1 \<in> PendingKill spawner1_failed \<and>
   since spawner1 spawner1_failed =
     [SpawnAttempt pointB, CallSpawnWalker pointB (Some 1), CallSpawnDefaultController 1,
      CallDestroy 1]"
  using TryToSpawnWalkerAt_failure_unwinds [OF TryToSpawnWalkerAt_spawner1]
  by (simp add: TryToSpawnWalkerAt_spawner1)

text \<open>
  C6. In the check of the active walkers, when the controller of the selected walker is
  resolvable and reports stuck, the check completes (the registry being non-empty); it
  takes exactly one value from the random stream, for the one destination it tries; it
  calls \<^verbatim>\<open>MoveToLocation\<close> exactly when that destination is far enough; and, either way,
  the walker is appended to the black list and removed from the active walkers (which,
  holding no pointer twice, no longer contain it). Nothing is destroyed.
\<close>

theorem Tick_Walkers_stuck_quarantined:
  assumes "Walkers s \<noteq> []"
    and "GetController (ControllerOf e) (picked (CurrentIndexToCheck s) (Walkers s)) s = Some C"
    and "WalkerIsStuck C"
    and "SpawnPoints s \<noteq> []" and "distinct (Walkers s)"
  shows "\<exists>s' a. Tick_Walkers e s = Inr s' \<and>
     picked (CurrentIndexToCheck s) (Walkers s) = Some a \<and>
     Consumed (RandomStream s') = Suc (Consumed (RandomStream s)) \<and>
     since s s' = WalkersCheck (Some a) #
       (if float_ge (GetDistance e (LocationOf e a) (ActorLocation (drawn_point s)))
                         (MinimumWalkDistance s)
        then [CallMoveToLocation a (ActorLocation (drawn_point s))] else []) \<and>
     WalkersBlackList s' = WalkersBlackList s @ [Some a] \<and>
     Walkers s' = swap_removed (CurrentIndexToCheck s) (Walkers s) \<and>
     set (Walkers s') = set (Walkers s) - {Some a} \<and>
     PendingKill s' = PendingKill s \<and> NumActors s' = NumActors s"
proof -
  from GetController_Some [OF assms(2)] obtain a where
    a: "picked (CurrentIndexToCheck s) (Walkers s) = Some a" by auto
  note eq = Tick_Walkers_stuck [OF assms(1-3) a]
  note sr = swap_removed_distinct(2) [OF assms(5,1), of "CurrentIndexToCheck s"]
  show ?thesis
    using assms(4) a sr
    by (cases "float_ge (GetDistance e (LocationOf e a) (ActorLocation (drawn_point s)))
                         (MinimumWalkDistance s)")
      (simp_all add: eq Let_def since_def)
qed

theorem Tick_Walkers_stuck_quarantined_witness:
  "Walkers spawner1 = [Some 0] \<and> WalkerIsStuck (AWalkerAIController True) \<and>
   GetController (ControllerOf stalled) (picked (CurrentIndexToCheck spawner1) (Walkers spawner1))
     spawner1 = Some (AWalkerAIController True) \<and>
   Tick_Walkers stalled spawner1 = Inr spawner2 \<and>
   since spawner1 spawner2 = [WalkersCheck (Some 0)] \<and>
   Walkers spawner2 = [] \<and> WalkersBlackList spawner2 = [Some 0] \<and>
   GetController (ControllerOf stalled)
     (picked (CurrentIndexToCheck spawner3_checked) (Walkers spawner3_checked))
     spawner3_checked = Some (AWalkerAIController True) \<and>
   Tick_Walkers stalled spawner3_checked = Inr spawner4 \<and>
   since spawner3_checked spawner4 = [WalkersCheck (Some 1), CallMoveToLocation 1 (vec 10 0 0)] \<and>
   Walkers spawner4 = [] \<and> WalkersBlackList spawner4 = [Some 1]"
  using Tick_Walkers_stuck_quarantined [of spawner1 stalled "AWalkerAIController True"]
    Tick_Walkers_stuck_quarantined [of spawner3_checked stalled "AWalkerAIController True"]
  by (simp add: Tick_Walkers_spawner1 Tick_Walkers_spawner3_checked)

text \<open>
  C7, as the code has it. In the check of a non-empty black list that holds no pointer
  twice, with the selected pointer an actor: if the actor's controller is unresolvable or
  reports stuck, the actor is removed from the black list and destroyed; otherwise it
  stays in the black list, nothing is destroyed, and the spawner is as before except that
  the shared round-robin counter has advanced by one (and the check is in the trace).
  The active walkers are not touched either way.
\<close>

theorem Tick_BlackList_check:
  assumes "WalkersBlackList s \<noteq> []"
    and "picked (CurrentIndexToCheck s) (WalkersBlackList s) = Some a"
    and "distinct (WalkersBlackList s)"
  shows "\<exists>s'. Tick_BlackList e s = Inr s' \<and> Walkers s' = Walkers s \<and>
     CurrentIndexToCheck s' = CurrentIndexToCheck s + 1 \<and>
     (if (case GetController (ControllerOf e) (Some a) s of
            None \<Rightarrow> True | Some Controller \<Rightarrow> WalkerIsStuck Controller)
      then set (WalkersBlackList s') = set (WalkersBlackList s) - {Some a} \<and>
           PendingKill s' = insert a (PendingKill s) \<and>
           since s s' = [BlackListCheck (Some a), CallDestroy a]
      else s' = s\<lparr>CurrentIndexToCheck := CurrentIndexToCheck s + 1,
                   Trace := Trace s @ [BlackListCheck (Some a)]\<rparr>)"
proof -
  note sr = swap_removed_distinct(2) [OF assms(3,1), of "CurrentIndexToCheck s"]
  show ?thesis
    using assms(1,2) sr
    by (simp add: Tick_BlackList_eq Let_def since_def emit_def)
qed

theorem Tick_BlackList_check_witness:
  "WalkersBlackList spawner3 = [Some 0] \<and>
   GetController (ControllerOf stalled) (Some 0) spawner3 = Some (AWalkerAIController True) \<and>
   Tick_BlackList stalled spawner3 = Inr spawner3_checked \<and>
   WalkersBlackList spawner3_checked = [] \<and> PendingKill spawner3_checked = {0} \<and>
   since spawner3 spawner3_checked = [BlackListCheck (Some 0), CallDestroy 0] \<and>
   GetController (ControllerOf calm) (Some 0) spawner2 = Some (AWalkerAIController False) \<and>
   Tick_BlackList calm spawner2 =
     Inr (spawner2\<lparr>CurrentIndexToCheck := 2, Trace := Trace spawner2 @ [BlackListCheck (Some 0)]\<rparr>)"
  using Tick_BlackList_check [of spawner3 0 stalled] Tick_BlackList_check [of spawner2 0 calm]
  by (simp add: Tick_BlackList_spawner3 Tick_BlackList_spawner2)

text \<open>
  C7, as stated, fails where the selected walker has recovered: in the small level, after
  the first tick, the black list holds actor 0, whose controller is resolvable and not
  stuck; the check leaves it in the black list, but the spawner is not as before: the
  round-robin counter has gone from 1 to 2.
\<close>

theorem Tick_BlackList_check_counterexample:
  "WalkersBlackList spawner2 = [Some 0] \<and>
   GetController (ControllerOf calm) (picked (CurrentIndexToCheck spawner2) (WalkersBlackList spawner2))
     spawner2 = Some (AWalkerAIController False) \<and>
   CurrentIndexToCheck spawner2 = 1 \<and>
   Tick_BlackList calm spawner2 =
     Inr (spawner2\<lparr>CurrentIndexToCheck := 2, Trace := Trace spawner2 @ [BlackListCheck (Some 0)]\<rparr>) \<and>
   Tick_BlackList calm spawner2 \<noteq> Inr spawner2"
proof -
  have "CurrentIndexToCheck
          (spawner2\<lparr>CurrentIndexToCheck := 2, Trace := Trace spawner2 @ [BlackListCheck (Some 0)]\<rparr>)
        \<noteq> CurrentIndexToCheck spawner2"
    by simp
  then have "spawner2\<lparr>CurrentIndexToCheck := 2, Trace := Trace spawner2 @ [BlackListCheck (Some 0)]\<rparr>
        \<noteq> spawner2"
    by metis
  then show ?thesis
    by (simp add: Tick_BlackList_spawner2)
qed

text \<open>
  C1 fails on the code. With a single spawn point for ongoing spawns, \<^verbatim>\<open>BeginPlay\<close>
  switches spawning off, but \<^verbatim>\<open>SetNumberOfWalkers(1)\<close> switches it on again and the
  next tick attempts a spawn at that point. With no spawn point at all the same tick
  stops at the \<^verbatim>\<open>check\<close> of \<^verbatim>\<open>GetRandomSpawnPoint\<close>.
\<close>

theorem SetNumberOfWalkers_reenables_spawning:
  "constructed spawner0 \<and>
   length (filter IsWalkerSpawnPoint (LevelSpawnPoints level1)) = 1 \<and>
   BeginPlay level1 spawner0 = Inr unspawned1 \<and> \<not> bSpawnWalkers unspawned1 \<and>
   bSpawnWalkers (SetNumberOfWalkers 1 unspawned1) \<and>
   Tick calm (SetNumberOfWalkers 1 unspawned1) = Inr respawning1 \<and>
   spawn_attempts (since (SetNumberOfWalkers 1 unspawned1) respawning1) = [pointA] \<and>
   length (filter IsWalkerSpawnPoint (LevelSpawnPoints level0)) = 0 \<and>
   BeginPlay level0 spawner0 = Inr unspawned0 \<and> \<not> bSpawnWalkers unspawned0 \<and>
   Tick calm (SetNumberOfWalkers 1 unspawned0) = Inl CheckFailed"
  by (simp add: constructed_spawner0 BeginPlay_level1 BeginPlay_level0 Tick_unspawned1
      Tick_unspawned0)
    (simp add: level1_def level0_def level2_def pointA_def unspawned1_def unspawned0_def
      spawner0_def SetNumberOfWalkers_def)

end
